theory Spec2Isabelle
  imports Complex_Main "HOL-Library.Char_ord" "HOL-Library.List_Lexorder"
begin

section \<open>Python values\<close>

text \<open>
  The request body is decoded by \<^verbatim>\<open>json\<close> or \<^verbatim>\<open>msgpack\<close> into Python objects.
  A float is kept as its exact value (or an infinity, or NaN) together with the text
  \<^verbatim>\<open>repr\<close> gives for it; nothing relates the two in this model. A \<^verbatim>\<open>dict\<close> is an
  association list in insertion order whose keys are distinct; a \<^verbatim>\<open>str\<close> is a list of
  8-bit characters, each read as one code point, which is exact for ASCII text such as
  DNA sequences and the keys of the request.
\<close>

datatype fnum = Fin rat | PInf | NInf | NaN

datatype json =
    JNull
  | JBool bool
  | JInt int
  | JFloat fnum string
  | JStr string
  | JList "json list"
  | JDict "(string \<times> json) list"

text \<open>
  Built-in exceptions that the code can raise without catching them, and the three
  \<^verbatim>\<open>APIError\<close> subclasses of \<^verbatim>\<open>error_checking_functions.py\<close>. The message of an
  \<^verbatim>\<open>APIError\<close> is a list of strings where the caller passes \<^verbatim>\<open>flagged_errors\<close> and a
  single string where it passes an f-string.
\<close>

datatype exn =
  TypeError | IndexError | KeyError | AttributeError | ValueError
  | ZeroDivisionError | UnboundLocalError

datatype message = MsgList "string list" | MsgStr string

datatype error =
    BadRequestError message
  | PredictionFailedError message
  | ServerError message
  | PyExc exn

text \<open>
  \<^verbatim>\<open>status_code\<close> as the constructors of the error classes set it. An exception that is
  not an \<^verbatim>\<open>APIError\<close> is wrapped by the route \<^verbatim>\<open>predict\<close> into a \<^verbatim>\<open>ServerError\<close>, so
  it reaches the client as a 500.
\<close>

fun status_code :: "error \<Rightarrow> nat" where
  "status_code (BadRequestError m) = 400"
| "status_code (PredictionFailedError m) = 422"
| "status_code (ServerError m) = 500"
| "status_code (PyExc e) = 500"

fun error_key :: "error \<Rightarrow> string" where
  "error_key (BadRequestError m) = ''bad_prediction_request''"
| "error_key (PredictionFailedError m) = ''prediction_request_failed''"
| "error_key (ServerError m) = ''server_error''"
| "error_key (PyExc e) = ''server_error''"

definition bind_e :: "error + 'a \<Rightarrow> ('a \<Rightarrow> error + 'b) \<Rightarrow> error + 'b" where
  "bind_e m f = (case m of Inl e \<Rightarrow> Inl e | Inr x \<Rightarrow> f x)"

subsection \<open>Truth value, length, iteration, subscripts\<close>

fun truthy :: "json \<Rightarrow> bool" where
  "truthy JNull = False"
| "truthy (JBool b) = b"
| "truthy (JInt i) = (i \<noteq> 0)"
| "truthy (JFloat f r) = (f \<noteq> Fin 0)"
| "truthy (JStr s) = (s \<noteq> [])"
| "truthy (JList xs) = (xs \<noteq> [])"
| "truthy (JDict kvs) = (kvs \<noteq> [])"

fun is_str :: "json \<Rightarrow> bool" where
  "is_str (JStr s) = True"
| "is_str v = False"

fun is_list :: "json \<Rightarrow> bool" where
  "is_list (JList xs) = True"
| "is_list v = False"

text \<open>\<^verbatim>\<open>isinstance(x, int)\<close> holds of a \<^verbatim>\<open>bool\<close> too.\<close>

fun is_int :: "json \<Rightarrow> bool" where
  "is_int (JInt i) = True"
| "is_int (JBool b) = True"
| "is_int v = False"

fun py_len :: "json \<Rightarrow> error + nat" where
  "py_len (JStr s) = Inr (length s)"
| "py_len (JList xs) = Inr (length xs)"
| "py_len (JDict kvs) = Inr (length kvs)"
| "py_len v = Inl (PyExc TypeError)"

fun py_iter :: "json \<Rightarrow> error + json list" where
  "py_iter (JList xs) = Inr xs"
| "py_iter (JDict kvs) = Inr (map (\<lambda>kv. JStr (fst kv)) kvs)"
| "py_iter (JStr s) = Inr (map (\<lambda>c. JStr [c]) s)"
| "py_iter v = Inl (PyExc TypeError)"

fun py_keys :: "json \<Rightarrow> error + string list" where
  "py_keys (JDict kvs) = Inr (map fst kvs)"
| "py_keys v = Inl (PyExc AttributeError)"

fun py_items :: "json \<Rightarrow> error + (string \<times> json) list" where
  "py_items (JDict kvs) = Inr kvs"
| "py_items v = Inl (PyExc AttributeError)"

text \<open>\<^verbatim>\<open>d.get(key, default)\<close>\<close>

fun py_get :: "json \<Rightarrow> string \<Rightarrow> json \<Rightarrow> error + json" where
  "py_get (JDict kvs) k d = Inr (case map_of kvs k of None \<Rightarrow> d | Some v \<Rightarrow> v)"
| "py_get v k d = Inl (PyExc AttributeError)"

text \<open>\<^verbatim>\<open>x[key]\<close> with a string key, and \<^verbatim>\<open>x[i]\<close> with one of the literals 0 and 1.\<close>

fun py_getitem_key :: "json \<Rightarrow> string \<Rightarrow> error + json" where
  "py_getitem_key (JDict kvs) k =
     (case map_of kvs k of None \<Rightarrow> Inl (PyExc KeyError) | Some v \<Rightarrow> Inr v)"
| "py_getitem_key v k = Inl (PyExc TypeError)"

fun py_getitem_idx :: "json \<Rightarrow> nat \<Rightarrow> error + json" where
  "py_getitem_idx (JList xs) i = (if i < length xs then Inr (xs ! i) else Inl (PyExc IndexError))"
| "py_getitem_idx (JStr s) i = (if i < length s then Inr (JStr [s ! i]) else Inl (PyExc IndexError))"
| "py_getitem_idx (JDict kvs) i = Inl (PyExc KeyError)"
| "py_getitem_idx v i = Inl (PyExc TypeError)"

text \<open>\<^verbatim>\<open>p in s\<close> for two strings, and \<^verbatim>\<open>key in x\<close> for a string key.\<close>

fun contains :: "string \<Rightarrow> string \<Rightarrow> bool" where
  "contains p [] = (p = [])"
| "contains p (c # cs) = (take (length p) (c # cs) = p \<or> contains p cs)"

fun py_contains_key :: "string \<Rightarrow> json \<Rightarrow> error + bool" where
  "py_contains_key k (JDict kvs) = Inr (k \<in> set (map fst kvs))"
| "py_contains_key k (JList xs) = Inr (JStr k \<in> set xs)"
| "py_contains_key k (JStr s) = Inr (contains k s)"
| "py_contains_key k v = Inl (PyExc TypeError)"

definition startswith :: "string \<Rightarrow> string \<Rightarrow> bool" where
  "startswith s p = (take (length p) s = p)"

subsection \<open>Numbers and their order\<close>

text \<open>
  The comparisons of the code have a number on one side at least: \<^verbatim>\<open>start < 0\<close> is
  evaluated first, and raises \<^verbatim>\<open>TypeError\<close> unless \<^verbatim>\<open>start\<close> is a \<^verbatim>\<open>bool\<close>, an \<^verbatim>\<open>int\<close>
  or a \<^verbatim>\<open>float\<close>. Python compares an \<^verbatim>\<open>int\<close> with a \<^verbatim>\<open>float\<close> exactly, and every
  comparison with NaN is false.
\<close>

datatype pynum = NInt int | NFloat fnum

fun as_num :: "json \<Rightarrow> pynum option" where
  "as_num (JBool b) = Some (NInt (if b then 1 else 0))"
| "as_num (JInt i) = Some (NInt i)"
| "as_num (JFloat f r) = Some (NFloat f)"
| "as_num v = None"

fun rank :: "pynum \<Rightarrow> (int \<times> rat) option" where
  "rank (NInt i) = Some (0, of_int i)"
| "rank (NFloat (Fin q)) = Some (0, q)"
| "rank (NFloat PInf) = Some (1, 0)"
| "rank (NFloat NInf) = Some (- 1, 0)"
| "rank (NFloat NaN) = None"

definition num_less :: "pynum \<Rightarrow> pynum \<Rightarrow> bool" where
  "num_less a b =
     (case (rank a, rank b) of
        (Some x, Some y) \<Rightarrow> fst x < fst y \<or> (fst x = fst y \<and> snd x < snd y)
      | _ \<Rightarrow> False)"

definition num_le :: "pynum \<Rightarrow> pynum \<Rightarrow> bool" where
  "num_le a b =
     (case (rank a, rank b) of
        (Some x, Some y) \<Rightarrow> fst x < fst y \<or> (fst x = fst y \<and> snd x \<le> snd y)
      | _ \<Rightarrow> False)"

definition py_lt :: "json \<Rightarrow> json \<Rightarrow> error + bool" where
  "py_lt a b =
     (case (as_num a, as_num b) of
        (Some x, Some y) \<Rightarrow> Inr (num_less x y)
      | _ \<Rightarrow> Inl (PyExc TypeError))"

definition py_le :: "json \<Rightarrow> json \<Rightarrow> error + bool" where
  "py_le a b =
     (case (as_num a, as_num b) of
        (Some x, Some y) \<Rightarrow> Inr (num_le x y)
      | _ \<Rightarrow> Inl (PyExc TypeError))"

text \<open>\<^verbatim>\<open>a or b\<close> on two comparisons: the right one is not evaluated when the left holds.\<close>

definition py_or :: "error + bool \<Rightarrow> error + bool \<Rightarrow> error + bool" where
  "py_or a b = (case a of Inl e \<Rightarrow> Inl e | Inr x \<Rightarrow> if x then Inr True else b)"

subsection \<open>Text of a value\<close>

definition sq :: string where
  "sq = [CHR 0x27]"

fun join :: "string \<Rightarrow> string list \<Rightarrow> string" where
  "join sep [] = []"
| "join sep [x] = x"
| "join sep (x # y # ys) = x @ sep @ join sep (y # ys)"

fun digits :: "nat \<Rightarrow> string" where
  "digits n =
     (if n < 10 then [''0123456789'' ! n]
      else digits (n div 10) @ [''0123456789'' ! (n mod 10)])"

definition show_int :: "int \<Rightarrow> string" where
  "show_int i = (if i < 0 then ''-'' @ digits (nat (- i)) else digits (nat i))"

text \<open>
  \<^verbatim>\<open>repr\<close> of a string: double quotes when the string has a single quote and no double
  quote, single quotes otherwise; the quote in use and the backslash are escaped, and
  so is every character that is not printable.
\<close>

definition hex2 :: "nat \<Rightarrow> string" where
  "hex2 n = [''0123456789abcdef'' ! (n div 16), ''0123456789abcdef'' ! (n mod 16)]"

definition repr_char :: "char \<Rightarrow> char \<Rightarrow> string" where
  "repr_char q c =
     (let n = (of_char c :: nat) in
      if c = q \<or> n = 92 then [CHR 0x5C, c]
      else if n = 9 then [CHR 0x5C, CHR ''t'']
      else if n = 10 then [CHR 0x5C, CHR ''n'']
      else if n = 13 then [CHR 0x5C, CHR ''r'']
      else if n < 32 \<or> (127 \<le> n \<and> n \<le> 160) \<or> n = 173 then [CHR 0x5C, CHR ''x''] @ hex2 n
      else [c])"

definition repr_str :: "string \<Rightarrow> string" where
  "repr_str s =
     (let q = (if CHR 0x27 \<in> set s \<and> CHR 0x22 \<notin> set s then CHR 0x22 else CHR 0x27)
      in [q] @ concat (map (repr_char q) s) @ [q])"

primrec py_repr :: "json \<Rightarrow> string" where
  "py_repr JNull = ''None''"
| "py_repr (JBool b) = (if b then ''True'' else ''False'')"
| "py_repr (JInt i) = show_int i"
| "py_repr (JFloat f r) = r"
| "py_repr (JStr s) = repr_str s"
| "py_repr (JList xs) = ''['' @ join '', '' (map py_repr xs) @ '']''"
| "py_repr (JDict kvs) =
     ''{'' @ join '', '' (map (\<lambda>kr. repr_str (fst kr) @ '': '' @ snd kr) (map (map_prod id py_repr) kvs)) @ ''}''"

text \<open>\<^verbatim>\<open>str(x)\<close>, which is what an f-string puts in place of \<^verbatim>\<open>{x}\<close>.\<close>

definition py_str :: "json \<Rightarrow> string" where
  "py_str v = (case v of JStr s \<Rightarrow> s | _ \<Rightarrow> py_repr v)"

section \<open>Payload validation (\<^verbatim>\<open>error_checking_functions.py\<close>, \<^verbatim>\<open>schema_validation.py\<close>)\<close>

text \<open>
  The accumulator \<^verbatim>\<open>{'bad_prediction_request': []}\<close> has one key; it is modelled by the
  list under that key. Every check appends to it and returns it. A loop over a Python
  container runs its body on each element in order and stops at the first exception.
\<close>

type_synonym errors = "string list"

fun for_each :: "('a \<Rightarrow> 's \<Rightarrow> error + 's) \<Rightarrow> 'a list \<Rightarrow> 's \<Rightarrow> error + 's" where
  "for_each body [] errs = Inr errs"
| "for_each body (x # xs) errs =
     (case body x errs of Inl e \<Rightarrow> Inl e | Inr errs' \<Rightarrow> for_each body xs errs')"

definition quoted :: "string \<Rightarrow> string" where
  "quoted s = sq @ s @ sq"

definition missing_keys :: "string list \<Rightarrow> string list \<Rightarrow> string list" where
  "missing_keys mandatory present = sort (remdups (filter (\<lambda>k. k \<notin> set present) mandatory))"

definition mandatory_keys :: "string list" where
  "mandatory_keys = [''readout'', ''prediction_tasks'', ''sequences'']"

definition check_mandatory_keys :: "string list \<Rightarrow> errors \<Rightarrow> errors" where
  "check_mandatory_keys evaluator_keys json_return_error =
     (let missing = missing_keys mandatory_keys evaluator_keys in
      if missing \<noteq> [] then
        json_return_error @
          [''The following mandatory top-level keys are missing from the JSON: '' @ join '', '' missing]
      else json_return_error)"

definition check_key_values_readout :: "json \<Rightarrow> errors \<Rightarrow> errors" where
  "check_key_values_readout readout_value json_return_error =
     (let e1 = (if readout_value \<in> set [JStr ''point'', JStr ''track'', JStr ''interaction_matrix'']
                then json_return_error
                else json_return_error @
                  [''readout requested is not recognized. Please choose from ['' @ quoted ''point'' @ '', ''
                    @ quoted ''track'' @ '', '' @ quoted ''interaction_matrix'' @ '']'']);
          e2 = (if is_str readout_value then e1
                else e1 @ [quoted ''readout'' @ '' value should be a string'']);
          e3 = (if is_list readout_value then e2 @ [quoted ''readout'' @ '' should only have 1 value'']
                else e2)
      in e3)"

definition task_mandatory_keys :: "string list" where
  "task_mandatory_keys = [''name'', ''type'', ''cell_type'', ''species'']"

definition task_keys_body :: "nat \<times> json \<Rightarrow> errors \<Rightarrow> error + errors" where
  "task_keys_body it errs =
     (let index = fst it; prediction_task = snd it in
      bind_e (py_keys prediction_task) (\<lambda>task_keys.
        let missing = missing_keys task_mandatory_keys task_keys in
        if missing \<noteq> [] then
          bind_e (py_get prediction_task ''name'' (JStr (''at index '' @ digits index))) (\<lambda>task_identifier.
            Inr (errs @
              [''Mandatory keys missing from prediction_task '' @ quoted (py_str task_identifier)
                @ '': '' @ join '', '' missing]))
        else Inr errs))"

definition check_prediction_task_mandatory_keys :: "json \<Rightarrow> errors \<Rightarrow> error + errors" where
  "check_prediction_task_mandatory_keys prediction_tasks json_return_error =
     bind_e (py_iter prediction_tasks) (\<lambda>tasks.
       for_each task_keys_body (enumerate 0 tasks) json_return_error)"

definition task_name_body :: "json \<Rightarrow> errors \<Rightarrow> error + errors" where
  "task_name_body prediction_task errs =
     bind_e (py_getitem_key prediction_task ''name'') (\<lambda>name.
       let e1 = (if is_list name then errs @ [quoted ''name'' @ '' should only have 1 value''] else errs);
           e2 = (if is_str name then e1 else e1 @ [quoted ''name'' @ '' value should be a string''])
       in Inr e2)"

definition check_prediction_task_name :: "json \<Rightarrow> errors \<Rightarrow> error + errors" where
  "check_prediction_task_name prediction_tasks json_return_error =
     bind_e (py_iter prediction_tasks) (\<lambda>tasks. for_each task_name_body tasks json_return_error)"

definition type_recognized :: "string \<Rightarrow> bool" where
  "type_recognized t =
     (t \<in> set [''accessibility'', ''expression'']
      \<or> list_ex (startswith t) [''binding_'', ''expression_'', ''conformation_''])"

definition task_type_body :: "json \<Rightarrow> errors \<Rightarrow> error + errors" where
  "task_type_body prediction_task errs =
     bind_e (py_getitem_key prediction_task ''type'') (\<lambda>ty.
       if is_list ty then Inr (errs @ [quoted ''type'' @ '' should only have 1 value''])
       else (case ty of
               JStr t \<Rightarrow>
                 if type_recognized t then Inr errs
                 else Inr (errs @ [''prediction type '' @ t @ '' is not recognized''])
             | _ \<Rightarrow> Inr (errs @ [quoted ''type'' @ '' value should be a string''])))"

definition check_prediction_task_type :: "json \<Rightarrow> errors \<Rightarrow> error + errors" where
  "check_prediction_task_type prediction_tasks json_return_error =
     bind_e (py_iter prediction_tasks) (\<lambda>tasks. for_each task_type_body tasks json_return_error)"

definition scalar_string_body :: "string \<Rightarrow> json \<Rightarrow> errors \<Rightarrow> error + errors" where
  "scalar_string_body field prediction_task errs =
     bind_e (py_getitem_key prediction_task field) (\<lambda>v.
       if is_list v then Inr (errs @ [quoted field @ '' should only have 1 value''])
       else if is_str v then Inr errs
       else Inr (errs @ [quoted field @ '' value should be a string'']))"

definition check_prediction_task_cell_type :: "json \<Rightarrow> errors \<Rightarrow> error + errors" where
  "check_prediction_task_cell_type prediction_tasks json_return_error =
     bind_e (py_iter prediction_tasks) (\<lambda>tasks.
       for_each (scalar_string_body ''cell_type'') tasks json_return_error)"

definition check_prediction_task_species :: "json \<Rightarrow> errors \<Rightarrow> error + errors" where
  "check_prediction_task_species prediction_tasks json_return_error =
     bind_e (py_iter prediction_tasks) (\<lambda>tasks.
       for_each (scalar_string_body ''species'') tasks json_return_error)"

definition task_scale_body :: "json \<Rightarrow> errors \<Rightarrow> error + errors" where
  "task_scale_body prediction_task errs =
     bind_e (py_contains_key ''scale'' prediction_task) (\<lambda>present.
       if present then
         bind_e (py_getitem_key prediction_task ''scale'') (\<lambda>scale.
           if is_list scale then Inr (errs @ [quoted ''scale'' @ '' should only have 1 value''])
           else
             let e1 = (if scale \<in> set [JStr ''linear'', JStr ''log''] then errs
                       else errs @
                         [''scale requested is not recognized. Please choose from ['' @ quoted ''log''
                           @ '', '' @ quoted ''linear'' @ '']'']);
                 e2 = (if is_str scale then e1 else e1 @ [quoted ''scale'' @ '' value should be a string''])
             in Inr e2)
       else Inr errs)"

definition check_prediction_task_scale :: "json \<Rightarrow> errors \<Rightarrow> error + errors" where
  "check_prediction_task_scale prediction_tasks json_return_error =
     bind_e (py_iter prediction_tasks) (\<lambda>tasks. for_each task_scale_body tasks json_return_error)"

definition check_seq_ids :: "json \<Rightarrow> json \<Rightarrow> errors \<Rightarrow> error + errors" where
  "check_seq_ids prediction_ranges sequences json_return_error =
     bind_e (py_keys prediction_ranges) (\<lambda>range_ids.
     bind_e (py_keys sequences) (\<lambda>seq_ids.
       if set range_ids = set seq_ids then Inr json_return_error
       else Inr (json_return_error @
              [''sequence ids in prediction_ranges do not match those in sequences''])))"

text \<open>The body of the loop of \<^verbatim>\<open>check_prediction_ranges\<close>, for one \<^verbatim>\<open>(key, value)\<close>.\<close>

definition range_body :: "json \<Rightarrow> string \<times> json \<Rightarrow> errors \<Rightarrow> error + errors" where
  "range_body sequences kv errs =
     (let key = fst kv; value = snd kv;
          e1 = (if is_list value then errs
                else errs @ [''Values for '' @ quoted key @ '' in '' @ quoted ''prediction_ranges''
                              @ '' must be in a list''])
      in
      if \<not> truthy value then Inr e1
      else
        bind_e (py_len value) (\<lambda>n.
        let e2 = (if n \<noteq> 2
                  then e1 @ [''Range array for '' @ quoted key @ '' in '' @ quoted ''prediction_ranges''
                              @ '' must have 2 elements'']
                  else e1) in
        bind_e (py_iter value) (\<lambda>nums.
        let e3 = (if list_all is_int nums then e2
                  else e2 @ [''Values in '' @ quoted key @ '' in '' @ quoted ''prediction_ranges''
                              @ '' must be integers'']) in
        bind_e (py_getitem_idx value 0) (\<lambda>start.
        bind_e (py_getitem_idx value 1) (\<lambda>end.
        bind_e (py_or (py_lt start (JInt 0)) (py_lt end (JInt 0))) (\<lambda>negative.
        let received = ''Received ['' @ py_str start @ '', '' @ py_str end @ '']'';
            e4 = (if negative
                  then e3 @ [''Invalid range for '' @ quoted key @ '' in '' @ quoted ''prediction_ranges''
                              @ '': indices must be positive. '' @ received]
                  else e3) in
        bind_e (py_lt end start) (\<lambda>reversed.
        let e5 = (if reversed
                  then e4 @ [''Invalid range for '' @ quoted key @ '' in '' @ quoted ''prediction_ranges''
                              @ '': start index ('' @ py_str start
                              @ '') cannot be greater than end index ('' @ py_str end @ ''). '' @ received]
                  else e4) in
        bind_e (py_get sequences key (JStr [])) (\<lambda>sequence.
        bind_e (py_len sequence) (\<lambda>seq_len.
        bind_e (py_or (py_le (JInt (int seq_len)) start) (py_le (JInt (int seq_len)) end)) (\<lambda>outside.
          if outside then
            Inr (e5 @
              [if seq_len = 0
               then ''Invalid range for '' @ quoted key
                      @ '': cannot specify a range for a non-existent or empty sequence.''
               else ''Invalid range for '' @ quoted key
                      @ '': index is out of bounds. The maximum valid index for a sequence of length ''
                      @ show_int (int seq_len) @ '' is '' @ show_int (int seq_len - 1) @ ''.''])
          else Inr e5))))))))))"

definition check_prediction_ranges :: "json \<Rightarrow> json \<Rightarrow> errors \<Rightarrow> error + errors" where
  "check_prediction_ranges prediction_ranges sequences json_return_error =
     bind_e (py_items prediction_ranges) (\<lambda>items.
       for_each (range_body sequences) items json_return_error)"

definition flank_check :: "string \<Rightarrow> json \<Rightarrow> errors \<Rightarrow> errors" where
  "flank_check field v errs =
     (if is_list v then errs @ [quoted field @ '' should only have 1 value'']
      else if is_str v then errs
      else errs @ [quoted field @ '' value should be a string''])"

definition check_key_values_upstream_flank :: "json \<Rightarrow> errors \<Rightarrow> errors" where
  "check_key_values_upstream_flank upstream_seq json_return_error =
     flank_check ''upstream_seq'' upstream_seq json_return_error"

definition check_key_values_downstream_flank :: "json \<Rightarrow> errors \<Rightarrow> errors" where
  "check_key_values_downstream_flank downstream_seq json_return_error =
     flank_check ''downstream_seq'' downstream_seq json_return_error"

text \<open>
  \<^verbatim>\<open>if any(errors.values()): raise BadRequestError(flagged_errors)\<close>: the accumulator has
  one key, so the flattened list is the list under it.
\<close>

definition raise_if_any :: "errors \<Rightarrow> error + unit" where
  "raise_if_any errs = (if errs \<noteq> [] then Inl (BadRequestError (MsgList errs)) else Inr ())"

text \<open>Lines 25 to 40 of \<^verbatim>\<open>validate_request_payload\<close>: the checks after the two key-presence stages.\<close>

definition range_checks :: "json \<Rightarrow> errors \<Rightarrow> error + errors" where
  "range_checks payload errs =
     bind_e (py_contains_key ''prediction_ranges'' payload) (\<lambda>present.
       if present then
         bind_e (py_getitem_key payload ''prediction_ranges'') (\<lambda>prediction_ranges.
         bind_e (py_getitem_key payload ''sequences'') (\<lambda>sequences.
         bind_e (check_seq_ids prediction_ranges sequences errs) (\<lambda>e1.
           check_prediction_ranges prediction_ranges sequences e1)))
       else Inr errs)"

definition flank_checks :: "json \<Rightarrow> errors \<Rightarrow> error + errors" where
  "flank_checks payload errs =
     bind_e (py_contains_key ''upstream_seq'' payload) (\<lambda>up.
     bind_e (if up then bind_e (py_getitem_key payload ''upstream_seq'') (\<lambda>upstream_seq.
                          Inr (check_key_values_upstream_flank upstream_seq errs))
             else Inr errs) (\<lambda>e1.
     bind_e (py_contains_key ''downstream_seq'' payload) (\<lambda>down.
       if down then bind_e (py_getitem_key payload ''downstream_seq'') (\<lambda>downstream_seq.
                      Inr (check_key_values_downstream_flank downstream_seq e1))
       else Inr e1)))"

definition remaining_checks :: "json \<Rightarrow> errors \<Rightarrow> error + errors" where
  "remaining_checks payload errs =
     bind_e (py_getitem_key payload ''readout'') (\<lambda>readout.
     let e1 = check_key_values_readout readout errs in
     bind_e (py_getitem_key payload ''prediction_tasks'') (\<lambda>prediction_tasks.
     bind_e (check_prediction_task_name prediction_tasks e1) (\<lambda>e2.
     bind_e (check_prediction_task_type prediction_tasks e2) (\<lambda>e3.
     bind_e (check_prediction_task_cell_type prediction_tasks e3) (\<lambda>e4.
     bind_e (check_prediction_task_species prediction_tasks e4) (\<lambda>e5.
     bind_e (check_prediction_task_scale prediction_tasks e5) (\<lambda>e6.
     bind_e (range_checks payload e6) (\<lambda>e7.
       flank_checks payload e7))))))))"

definition validate_request_payload :: "json \<Rightarrow> error + unit" where
  "validate_request_payload payload =
     bind_e (py_keys payload) (\<lambda>keys.
     let errors = check_mandatory_keys keys [] in
     bind_e (raise_if_any errors) (\<lambda>u.
     bind_e (py_getitem_key payload ''prediction_tasks'') (\<lambda>prediction_tasks.
     bind_e (check_prediction_task_mandatory_keys prediction_tasks errors) (\<lambda>errors1.
     bind_e (raise_if_any errors1) (\<lambda>u.
     bind_e (remaining_checks payload errors1) (\<lambda>errors2.
       raise_if_any errors2))))))"

section \<open>Preprocessing (\<^verbatim>\<open>preprocess_data\<close>)\<close>

text \<open>
  \<^verbatim>\<open>s[start:stop]\<close> on a list of length \<open>n\<close>: a negative index counts from the end, and
  both indices are clipped to \<open>0..n\<close>. \<^verbatim>\<open>None\<close> as \<^verbatim>\<open>start\<close> is 0.
\<close>

definition slice_index :: "nat \<Rightarrow> int \<Rightarrow> nat" where
  "slice_index n i = (if i < 0 then nat (max (i + int n) 0) else min (nat i) n)"

definition py_slice :: "'a list \<Rightarrow> int \<Rightarrow> int \<Rightarrow> 'a list" where
  "py_slice s start stop =
     (let lo = slice_index (length s) start; hi = slice_index (length s) stop
      in take (hi - lo) (drop lo s))"

text \<open>A value used as a slice bound: an \<^verbatim>\<open>int\<close> or a \<^verbatim>\<open>bool\<close>, or \<^verbatim>\<open>None\<close> as \<^verbatim>\<open>start\<close>.\<close>

fun slice_start :: "json \<Rightarrow> error + int" where
  "slice_start JNull = Inr 0"
| "slice_start (JInt i) = Inr i"
| "slice_start (JBool b) = Inr (if b then 1 else 0)"
| "slice_start v = Inl (PyExc TypeError)"

text \<open>
  \<^verbatim>\<open>end+1\<close> as a slice bound. The sum is a \<^verbatim>\<open>TypeError\<close> unless \<^verbatim>\<open>end\<close> is a number, and a
  \<^verbatim>\<open>float\<close> is no slice bound.
\<close>

fun slice_stop :: "json \<Rightarrow> error + int" where
  "slice_stop (JInt i) = Inr (i + 1)"
| "slice_stop (JBool b) = Inr ((if b then 1 else 0) + 1)"
| "slice_stop v = Inl (PyExc TypeError)"

text \<open>
  \<^verbatim>\<open>x[start:stop]\<close> where the bounds are integers. A \<^verbatim>\<open>dict\<close> rejects a slice as a key
  (\<^verbatim>\<open>TypeError\<close>, unhashable, before Python 3.12).
\<close>

fun py_getslice :: "json \<Rightarrow> int \<Rightarrow> int \<Rightarrow> error + json" where
  "py_getslice (JStr s) a b = Inr (JStr (py_slice s a b))"
| "py_getslice (JList xs) a b = Inr (JList (py_slice xs a b))"
| "py_getslice v a b = Inl (PyExc TypeError)"

text \<open>\<^verbatim>\<open>start, end = pr\<close>\<close>

definition py_unpack2 :: "json \<Rightarrow> error + json \<times> json" where
  "py_unpack2 v =
     bind_e (py_iter v) (\<lambda>xs.
       case xs of [a, b] \<Rightarrow> Inr (a, b) | _ \<Rightarrow> Inl (PyExc ValueError))"

fun dict_set :: "string \<Rightarrow> json \<Rightarrow> (string \<times> json) list \<Rightarrow> (string \<times> json) list" where
  "dict_set k v [] = [(k, v)]"
| "dict_set k v (kv # kvs) = (if fst kv = k then (k, v) # kvs else kv # dict_set k v kvs)"

text \<open>\<^verbatim>\<open>x[key] = v\<close>\<close>

fun py_setitem :: "json \<Rightarrow> string \<Rightarrow> json \<Rightarrow> error + json" where
  "py_setitem (JDict kvs) k v = Inr (JDict (dict_set k v kvs))"
| "py_setitem x k v = Inl (PyExc TypeError)"

text \<open>
  The flanking loop. \<^verbatim>\<open>print\<close> evaluates \<^verbatim>\<open>len(upstream_seq)\<close> and
  \<^verbatim>\<open>len(downstream_seq)\<close> before the loop starts, and \<^verbatim>\<open>tqdm\<close> is given
  \<^verbatim>\<open>sequences.items()\<close> and \<^verbatim>\<open>len(sequences)\<close>. The loop assigns to keys the dict already
  has, so the keys and their order stay.
\<close>

definition apply_flanks :: "json \<Rightarrow> json \<Rightarrow> json \<Rightarrow> error + json" where
  "apply_flanks upstream_seq downstream_seq sequences =
     bind_e (py_len upstream_seq) (\<lambda>n_up.
     bind_e (py_len downstream_seq) (\<lambda>n_down.
     bind_e (py_items sequences) (\<lambda>items.
       Inr (JDict (map (\<lambda>it. (fst it, JStr (py_str upstream_seq @ py_str (snd it) @ py_str downstream_seq)))
                    items)))))"

definition flank_step :: "json \<Rightarrow> json \<Rightarrow> error + json" where
  "flank_step payload sequences =
     bind_e (py_contains_key ''upstream_seq'' payload) (\<lambda>up.
     bind_e (if up then Inr True else py_contains_key ''downstream_seq'' payload) (\<lambda>either.
       if either then
         bind_e (py_get payload ''upstream_seq'' (JStr [])) (\<lambda>upstream_seq.
         bind_e (py_get payload ''downstream_seq'' (JStr [])) (\<lambda>downstream_seq.
           if truthy upstream_seq \<or> truthy downstream_seq
           then apply_flanks upstream_seq downstream_seq sequences
           else Inr sequences))
       else Inr sequences))"

text \<open>The body of the trimming loop, for one \<^verbatim>\<open>(seq_id, pr)\<close>.\<close>

definition trim_body :: "string \<times> json \<Rightarrow> json \<Rightarrow> error + json" where
  "trim_body it sequences =
     (let seq_id = fst it; pr = snd it in
      if truthy pr then
        bind_e (py_unpack2 pr) (\<lambda>se.
        bind_e (py_getitem_key sequences seq_id) (\<lambda>sequence.
        bind_e (slice_start (fst se)) (\<lambda>start.
        bind_e (slice_stop (snd se)) (\<lambda>stop.
        bind_e (py_getslice sequence start stop) (\<lambda>trimmed.
          py_setitem sequences seq_id trimmed)))))
      else Inr sequences)"

definition range_step :: "json \<Rightarrow> json \<Rightarrow> error + json" where
  "range_step payload sequences =
     bind_e (py_contains_key ''prediction_ranges'' payload) (\<lambda>present.
       if present then
         bind_e (py_getitem_key payload ''prediction_ranges'') (\<lambda>prediction_ranges.
         bind_e (py_items prediction_ranges) (\<lambda>items.
           for_each trim_body items sequences))
       else Inr sequences)"

text \<open>Lines 55 to 84 of \<^verbatim>\<open>preprocess_data\<close>: the sequences after flanking and trimming.\<close>

definition transformed_sequences :: "json \<Rightarrow> error + json" where
  "transformed_sequences payload =
     bind_e (py_get payload ''sequences'' (JDict [])) (\<lambda>sequences.
     bind_e (flank_step payload sequences) (\<lambda>flanked.
       range_step payload flanked))"

text \<open>
  \<^verbatim>\<open>str.upper\<close> and \<^verbatim>\<open>str.lower\<close>, exact on ASCII; a character outside ASCII is left as it
  is (no such character has an upper case among the five bases).
\<close>

definition upper_char :: "char \<Rightarrow> char" where
  "upper_char c = (let n = (of_char c :: nat) in if 97 \<le> n \<and> n \<le> 122 then char_of (n - 32) else c)"

definition lower_char :: "char \<Rightarrow> char" where
  "lower_char c = (let n = (of_char c :: nat) in if 65 \<le> n \<and> n \<le> 90 then char_of (n + 32) else c)"

definition upper :: "string \<Rightarrow> string" where
  "upper s = map upper_char s"

definition lower :: "string \<Rightarrow> string" where
  "lower s = map lower_char s"

definition valid_bases :: "char set" where
  "valid_bases = {CHR ''A'', CHR ''T'', CHR ''C'', CHR ''G'', CHR ''N''}"

text \<open>
  The text of a set of characters inside the message. Python leaves the order of a set
  open; the model lists each character once, in the order \<open>remdups\<close> leaves them.
\<close>

definition set_repr :: "string \<Rightarrow> string" where
  "set_repr cs = ''{'' @ join '', '' (map (\<lambda>c. repr_str [c]) (remdups cs)) @ ''}''"

definition seq_spec_body :: "string \<times> json \<Rightarrow> errors \<Rightarrow> error + errors" where
  "seq_spec_body it errs =
     (let seq_id = fst it; seq = snd it;
          e1 = (if \<not> truthy seq then errs @ [''sequence '' @ quoted seq_id @ '' is empty''] else errs)
      in case seq of
           JStr s \<Rightarrow>
             (let invalid_chars = filter (\<lambda>c. c \<notin> valid_bases) (upper s) in
              if invalid_chars \<noteq> []
              then Inr (e1 @ [''sequence '' @ quoted seq_id @ '' has invalid character(s): ''
                              @ set_repr invalid_chars])
              else Inr e1)
         | _ \<Rightarrow> Inl (PyExc AttributeError))"

definition check_seqs_specifications :: "json \<Rightarrow> errors \<Rightarrow> error + errors" where
  "check_seqs_specifications sequences json_return_error_model =
     bind_e (py_items sequences) (\<lambda>items. for_each seq_spec_body items json_return_error_model)"

definition preprocess_data :: "json \<Rightarrow> error + json" where
  "preprocess_data payload =
     bind_e (transformed_sequences payload) (\<lambda>sequences.
     bind_e (check_seqs_specifications sequences []) (\<lambda>errors.
     bind_e (py_getitem_key payload ''readout'') (\<lambda>readout_type.
       if readout_type \<notin> set [JStr ''point'', JStr ''track'']
       then Inl (BadRequestError (MsgStr
              (''Test Predictor cannot process '' @ quoted (py_str readout_type) @ '' readout type.'')))
       else if errors \<noteq> [] then Inl (PredictionFailedError (MsgList errors))
       else Inr sequences)))"

section \<open>Prediction (\<^verbatim>\<open>cpg_utils.py\<close>)\<close>

text \<open>
  Floating-point arithmetic is idealised: a Python \<^verbatim>\<open>float\<close> result is a real number, the
  constant \<^verbatim>\<open>1e-9\<close> is \<open>1 / 10 ^ 9\<close>, and \<^verbatim>\<open>np.log2\<close> is the logarithm to base 2. Rounding
  is outside the model. The division \<^verbatim>\<open>/\<close> raises \<^verbatim>\<open>ZeroDivisionError\<close> on a zero divisor.
\<close>

definition epsilon :: real where
  "epsilon = 1 / 10 ^ 9"

definition py_truediv :: "real \<Rightarrow> real \<Rightarrow> error + real" where
  "py_truediv a b = (if b = 0 then Inl (PyExc ZeroDivisionError) else Inr (a / b))"

fun map_e :: "('a \<Rightarrow> error + 'b) \<Rightarrow> 'a list \<Rightarrow> error + 'b list" where
  "map_e f [] = Inr []"
| "map_e f (x # xs) =
     (case f x of
        Inl e \<Rightarrow> Inl e
      | Inr y \<Rightarrow> (case map_e f xs of Inl e \<Rightarrow> Inl e | Inr ys \<Rightarrow> Inr (y # ys)))"

text \<open>
  \<^verbatim>\<open>sum(1 for i in range(len(s)-1) if s[i:i+2] == "CG")\<close>; the range is empty when
  \<^verbatim>\<open>len(s)\<close> is 0 or 1.
\<close>

definition total_cpg :: "string \<Rightarrow> nat" where
  "total_cpg s = length (filter (\<lambda>i. take 2 (drop i s) = ''CG'') [0..<length s - 1])"

text \<open>
  The result variable of \<^verbatim>\<open>cpg_mean\<close> and of \<^verbatim>\<open>calculate_cpg_per_base\<close> is assigned
  under \<^verbatim>\<open>scale_actual == "linear"\<close> and under \<^verbatim>\<open>scale_actual == "log"\<close> only; with any
  other scale the \<^verbatim>\<open>return\<close> reads an unassigned local.
\<close>

definition cpg_mean :: "string \<Rightarrow> string \<Rightarrow> error + real" where
  "cpg_mean seq scale_actual =
     (let s = upper seq in
      bind_e (py_truediv (real (total_cpg s) + epsilon) (real (length s))) (\<lambda>mean_val.
        if scale_actual = ''linear'' then Inr mean_val
        else if scale_actual = ''log'' then Inr (log 2 mean_val)
        else Inl (PyExc UnboundLocalError)))"

text \<open>
  \<^verbatim>\<open>s.count(p)\<close>: the occurrences of \<open>p\<close> that do not overlap, found from the left; for
  the empty pattern Python answers \<^verbatim>\<open>len(s) + 1\<close>.
\<close>

fun count_from :: "string \<Rightarrow> nat \<Rightarrow> string \<Rightarrow> nat" where
  "count_from p skip [] = 0"
| "count_from p skip (c # cs) =
     (if 0 < skip then count_from p (skip - 1) cs
      else if take (length p) (c # cs) = p then Suc (count_from p (length p - 1) cs)
      else count_from p 0 cs)"

definition str_count :: "string \<Rightarrow> string \<Rightarrow> nat" where
  "str_count s p = (if p = [] then Suc (length s) else count_from p 0 s)"

text \<open>\<^verbatim>\<open>sequence.upper().replace(' ', '').replace('\n', '')\<close>\<close>

definition cleaned :: "string \<Rightarrow> string" where
  "cleaned sequence = filter (\<lambda>c. c \<noteq> CHR 0x0A) (filter (\<lambda>c. c \<noteq> CHR '' '') (upper sequence))"

text \<open>
  One turn of the loop over \<^verbatim>\<open>range(seq_len)\<close>: the density at position \<open>i\<close>. The
  arrays \<^verbatim>\<open>positions\<close>, \<^verbatim>\<open>bases\<close>, \<^verbatim>\<open>is_cpg_start\<close> and \<^verbatim>\<open>cpg_count\<close> do not reach the
  returned list and are left out.
\<close>

definition window_density :: "string \<Rightarrow> int \<Rightarrow> nat \<Rightarrow> error + real" where
  "window_density sequence half_window i =
     (let seq_len = int (length sequence);
          start = max 0 (int i - half_window);
          end = min seq_len (int i + half_window);
          window_seq = py_slice sequence start end;
          cpgs_in_window = str_count window_seq ''CG'';
          window_len = end - start
      in if window_len > 0
         then bind_e (py_truediv (real cpgs_in_window) (real_of_int window_len)) (\<lambda>q. Inr (q * 100))
         else Inr 0)"

definition calculate_cpg_per_base :: "string \<Rightarrow> string \<Rightarrow> int \<Rightarrow> error + real list" where
  "calculate_cpg_per_base sequence scale_actual window_size =
     (let sequence = cleaned sequence;
          seq_len = length sequence;
          half_window = window_size div 2
      in bind_e (map_e (window_density sequence half_window) [0..<seq_len]) (\<lambda>cpg_density.
           if scale_actual = ''linear'' then Inr cpg_density
           else if scale_actual = ''log'' then Inr (map (\<lambda>d. log 2 (d + epsilon)) cpg_density)
           else Inl (PyExc UnboundLocalError)))"

text \<open>
  \<^verbatim>\<open>predict_cpg\<close>: the sequences are a \<^verbatim>\<open>dict\<close> of strings (\<^verbatim>\<open>seq: str\<close>), the readout a
  string, the requested scale a string or \<^verbatim>\<open>None\<close>.
\<close>

definition predict_cpg ::
  "(string \<times> string) list \<Rightarrow> string \<Rightarrow> string option \<Rightarrow> error + (string \<times> real list) list \<times> string" where
  "predict_cpg sequences readout scale_requested =
     (let scale_actual = (case scale_requested of None \<Rightarrow> ''linear'' | Some sc \<Rightarrow> sc) in
      bind_e (if readout = ''point''
              then map_e (\<lambda>it. bind_e (cpg_mean (snd it) scale_actual) (\<lambda>v. Inr (fst it, [v]))) sequences
              else Inr []) (\<lambda>predictions.
      bind_e (if readout = ''track''
              then map_e (\<lambda>it. bind_e (calculate_cpg_per_base (snd it) scale_actual 50)
                                  (\<lambda>vs. Inr (fst it, vs))) sequences
              else Inr predictions) (\<lambda>predictions'.
        Inr (predictions', scale_actual))))"

section \<open>Content negotiation (\<^verbatim>\<open>predictor_content_handler.py\<close>)\<close>

text \<open>
  What the handler reads of Flask's \<^verbatim>\<open>request\<close>: the two headers and the body. The
  decoders \<^verbatim>\<open>request.get_json\<close> and \<^verbatim>\<open>msgpack.unpackb\<close> and the encoders \<^verbatim>\<open>jsonify\<close> and
  \<^verbatim>\<open>msgpack.packb\<close> belong to libraries; they are parameters, and each answers either
  the text of the exception it raises (\<open>Inl\<close>) or its result.
\<close>

record request =
  hdr_content_type :: "string option"
  hdr_accept :: "string option"
  data :: string

record response =
  resp_body :: string
  status :: nat
  mimetype :: string

definition unsupported_content_type :: "string \<Rightarrow> string list \<Rightarrow> error" where
  "unsupported_content_type content_type supported_request_formats =
     BadRequestError (MsgStr (''Unsupported Content-Type: '' @ content_type @ ''. Must be one of ''
       @ py_repr (JList (map JStr supported_request_formats))))"

definition resolved_content_type :: "request \<Rightarrow> string" where
  "resolved_content_type req =
     (case hdr_content_type req of
        None \<Rightarrow> ''application/json''
      | Some h \<Rightarrow> if h = [] then ''application/json'' else lower h)"

definition decode_request ::
  "(request \<Rightarrow> string + json) \<Rightarrow> (string \<Rightarrow> string + json) \<Rightarrow> string list \<Rightarrow> request \<Rightarrow> error + json" where
  "decode_request get_json unpackb supported_request_formats req =
     (let ct = resolved_content_type req in
      if ct \<notin> set supported_request_formats
      then Inl (unsupported_content_type ct supported_request_formats)
      else if ct = ''application/json'' then
        (case get_json req of
           Inr v \<Rightarrow> Inr v
         | Inl e \<Rightarrow> Inl (BadRequestError (MsgStr (''Could not parse JSON payload: '' @ e))))
      else if ct = ''application/msgpack'' then
        (case unpackb (data req) of
           Inr v \<Rightarrow> Inr v
         | Inl e \<Rightarrow> Inl (BadRequestError (MsgStr (''Could not decode MsgPack payload: '' @ e))))
      else Inl (unsupported_content_type ct supported_request_formats))"

text \<open>Lines 70 to 79 of \<^verbatim>\<open>encode_response\<close>: the format of the response.\<close>

definition response_format :: "request \<Rightarrow> bool \<Rightarrow> string list \<Rightarrow> string" where
  "response_format req isError supported_response_formats =
     (if isError then ''application/json''
      else
        let accept_header = lower (case hdr_accept req of None \<Rightarrow> [] | Some a \<Rightarrow> a) in
        if contains ''application/msgpack'' accept_header
           \<and> ''application/msgpack'' \<in> set supported_response_formats
        then ''application/msgpack''
        else ''application/json'')"

text \<open>The two \<^verbatim>\<open>try\<close> blocks of \<^verbatim>\<open>encode_response\<close> (lines 82 to 95).\<close>

definition msgpack_response ::
  "((string \<times> json) list \<Rightarrow> string + string) \<Rightarrow> (string \<times> json) list \<Rightarrow> nat \<Rightarrow> error + response" where
  "msgpack_response packb payload code =
     (case packb payload of
        Inr b \<Rightarrow> Inr \<lparr>resp_body = b, status = code, mimetype = ''application/msgpack''\<rparr>
      | Inl e \<Rightarrow> Inl (ServerError (MsgStr ''Failed to serialize successful response as MsgPack.'')))"

definition json_response ::
  "((string \<times> json) list \<Rightarrow> string + string) \<Rightarrow> (string \<times> json) list \<Rightarrow> nat \<Rightarrow> error + response" where
  "json_response jsonify payload code =
     (case jsonify payload of
        Inr b \<Rightarrow> Inr \<lparr>resp_body = b, status = code, mimetype = ''application/json''\<rparr>
      | Inl e \<Rightarrow> Inl (ServerError (MsgStr
          (''Internal Server Error: Failed to serialize response as JSON: '' @ e))))"

definition with_predictor_name :: "(string \<times> json) list \<Rightarrow> string \<Rightarrow> (string \<times> json) list" where
  "with_predictor_name payload predictor_name =
     (if ''predictor_name'' \<notin> set (map fst payload)
      then (''predictor_name'', JStr predictor_name) # payload
      else payload)"

definition encode_response ::
  "((string \<times> json) list \<Rightarrow> string + string) \<Rightarrow> ((string \<times> json) list \<Rightarrow> string + string) \<Rightarrow> request
     \<Rightarrow> (string \<times> json) list \<Rightarrow> nat \<Rightarrow> bool \<Rightarrow> string list option \<Rightarrow> string \<Rightarrow> error + response" where
  "encode_response packb jsonify req payload code isError supported_response_formats predictor_name =
     (let supported = (case supported_response_formats of None \<Rightarrow> [''application/json''] | Some fs \<Rightarrow> fs);
          payload' = with_predictor_name payload predictor_name
      in if response_format req isError supported = ''application/msgpack''
         then msgpack_response packb payload' code
         else json_response jsonify payload' code)"

section \<open>Notions used to state the properties\<close>

text \<open>
  The inclusive slice \<open>[start, end]\<close> of a sequence in the words of the specification: the
  characters at the positions \<open>start\<close>, ..., \<open>end\<close> that the sequence has.
\<close>

definition inclusive_slice :: "string \<Rightarrow> nat \<Rightarrow> nat \<Rightarrow> string" where
  "inclusive_slice s start end = take (Suc end - start) (drop start s)"

text \<open>A range as the request writes it: the empty list, or \<open>[start, end]\<close>.\<close>

fun range_json :: "(nat \<times> nat) option \<Rightarrow> json" where
  "range_json None = JList []"
| "range_json (Some se) = JList [JInt (int (fst se)), JInt (int (snd se))]"

text \<open>
  What the specification says a sequence becomes, given the entry of its id in
  \<^verbatim>\<open>prediction_ranges\<close> (no entry, the empty list, or a range).
\<close>

definition trimmed :: "(nat \<times> nat) option option \<Rightarrow> string \<Rightarrow> string" where
  "trimmed r s = (case r of Some (Some se) \<Rightarrow> inclusive_slice s (fst se) (snd se) | _ \<Rightarrow> s)"

text \<open>
  The number of positions of a string at which "CG" starts, and the smoothed ratio of the
  point readout in the words of the specification.
\<close>

fun occ :: "string \<Rightarrow> nat" where
  "occ [] = 0"
| "occ (c # cs) = (if take 2 (c # cs) = ''CG'' then 1 else 0) + occ cs"

definition smoothed_ratio :: "string \<Rightarrow> real" where
  "smoothed_ratio s = (real (occ (upper s)) + 1 / 10 ^ 9) / real (length s)"

text \<open>
  The density over the positions \<open>lo\<close>, ..., \<open>hi - 1\<close> of a string: the occurrences of "CG"
  in the substring at these positions, divided by their number, times 100.
\<close>

definition density_over :: "string \<Rightarrow> nat \<Rightarrow> nat \<Rightarrow> real" where
  "density_over t lo hi = real (occ (map (nth t) [lo..<hi])) / real (hi - lo) * 100"

text \<open>A sequence that meets the model specifications: not empty, over A, C, G, T, N in either case.\<close>

definition valid_sequence :: "string \<Rightarrow> bool" where
  "valid_sequence s = (s \<noteq> [] \<and> set (upper s) \<subseteq> valid_bases)"

text \<open>The messages of \<^verbatim>\<open>check_seqs_specifications\<close> for one sequence that is a string.\<close>

definition seq_messages :: "string \<Rightarrow> string \<Rightarrow> string list" where
  "seq_messages seq_id s =
     (if s = [] then [''sequence '' @ quoted seq_id @ '' is empty''] else [])
     @ (if filter (\<lambda>c. c \<notin> valid_bases) (upper s) \<noteq> []
        then [''sequence '' @ quoted seq_id @ '' has invalid character(s): ''
               @ set_repr (filter (\<lambda>c. c \<notin> valid_bases) (upper s))]
        else [])"

section \<open>Basic facts\<close>

lemma bind_e_simps [simp]:
  "bind_e (Inl e) f = Inl e"
  "bind_e (Inr x) f = f x"
  by (simp_all add: bind_e_def)

lemma bind_e_Inr_iff:
  "bind_e m f = Inr y \<longleftrightarrow> (\<exists>x. m = Inr x \<and> f x = Inr y)"
  by (cases m) simp_all

lemma missing_keys_set: "set (missing_keys mandatory present) = set mandatory - set present"
  by (auto simp: missing_keys_def)

lemma missing_keys_sorted_list:
  "missing_keys mandatory present = sorted_list_of_set (set mandatory - set present)"
proof -
  have "set mandatory - set present = set (filter (\<lambda>k. k \<notin> set present) mandatory)"
    by auto
  then show ?thesis
    by (simp only: missing_keys_def sorted_list_of_set_sort_remdups)
qed

section \<open>The mandatory top-level keys\<close>

text \<open>
  C1. Whenever one of the mandatory top-level keys \<^verbatim>\<open>readout\<close>, \<^verbatim>\<open>prediction_tasks\<close>,
  \<^verbatim>\<open>sequences\<close> is absent from the payload, \<^verbatim>\<open>validate_request_payload\<close> raises a
  \<^verbatim>\<open>BadRequestError\<close> (status 400) whose message list holds exactly one message: the
  fixed text followed by the missing keys, sorted and separated by commas. Nothing else
  of the payload is looked at, so no message of a later stage stands beside it, whatever
  the other keys hold.
\<close>

theorem missing_top_level_keys_rejected:
  assumes "\<not> set mandatory_keys \<subseteq> set (map fst kvs)"
  shows "validate_request_payload (JDict kvs) =
           Inl (BadRequestError (MsgList
             [''The following mandatory top-level keys are missing from the JSON: ''
               @ join '', '' (sorted_list_of_set (set mandatory_keys - set (map fst kvs)))]))
         \<and> status_code (BadRequestError (MsgList
             [''The following mandatory top-level keys are missing from the JSON: ''
               @ join '', '' (sorted_list_of_set (set mandatory_keys - set (map fst kvs)))])) = 400"
proof -
  let ?missing = "missing_keys mandatory_keys (map fst kvs)"
  have "set ?missing \<noteq> {}"
    using assms by (auto simp: missing_keys_set)
  then have ne: "?missing \<noteq> []"
    by auto
  have "validate_request_payload (JDict kvs) =
          Inl (BadRequestError (MsgList
             [''The following mandatory top-level keys are missing from the JSON: '' @ join '', '' ?missing]))"
    using ne by (simp add: validate_request_payload_def check_mandatory_keys_def raise_if_any_def Let_def)
  then show ?thesis
    by (simp add: missing_keys_sorted_list)
qed

text \<open>
  The payload \<^verbatim>\<open>{"readout": [], "upstream_seq": 3, "prediction_ranges": {"s1": [0]}}\<close>
  lacks two mandatory keys; its readout, its flank and its range would each fail a later
  check, and none of them is reported.
\<close>

theorem missing_top_level_keys_rejected_witness:
  "validate_request_payload
     (JDict [(''readout'', JList []), (''upstream_seq'', JInt 3),
             (''prediction_ranges'', JDict [(''s1'', JList [JInt 0])])]) =
   Inl (BadRequestError (MsgList
     [''The following mandatory top-level keys are missing from the JSON: prediction_tasks, sequences'']))"
proof -
  have h: "\<not> set mandatory_keys \<subseteq> set (map fst [(''readout'', JList []), (''upstream_seq'', JInt 3),
             (''prediction_ranges'', JDict [(''s1'', JList [JInt 0])])])"
    by (simp add: mandatory_keys_def)
  have m: "sorted_list_of_set (set mandatory_keys - set (map fst [(''readout'', JList []), (''upstream_seq'', JInt 3),
             (''prediction_ranges'', JDict [(''s1'', JList [JInt 0])])])) = [''prediction_tasks'', ''sequences'']"
    unfolding missing_keys_sorted_list [symmetric] by code_simp
  show ?thesis
    using missing_top_level_keys_rejected [OF h] unfolding m by simp
qed

section \<open>Every check appends to the accumulator\<close>

text \<open>
  A check that is handed the accumulator \<open>acc\<close> returns \<open>acc\<close> followed by the messages it
  finds when it is handed the empty accumulator, and it raises the same exception in
  both cases: what was accumulated before never changes what a check reports.
\<close>

lemma for_each_accumulates:
  assumes "\<And>x acc. body x acc = map_sum id ((@) acc) (body x [])"
  shows "for_each body xs acc = map_sum id ((@) acc) (for_each body xs [])"
proof (induction xs arbitrary: acc)
  case Nil
  show ?case by simp
next
  case (Cons x xs)
  show ?case
  proof (cases "body x []")
    case (Inl e)
    then show ?thesis
      using assms [of x acc] by simp
  next
    case (Inr own)
    have "for_each body (x # xs) acc = for_each body xs (acc @ own)"
      using assms [of x acc] Inr by simp
    also have "\<dots> = map_sum id ((@) (acc @ own)) (for_each body xs [])"
      by (rule Cons.IH)
    also have "\<dots> = map_sum id ((@) acc) (map_sum id ((@) own) (for_each body xs []))"
      by (cases "for_each body xs []") simp_all
    also have "map_sum id ((@) own) (for_each body xs []) = for_each body xs own"
      by (rule Cons.IH [symmetric])
    also have "for_each body xs own = for_each body (x # xs) []"
      using Inr by simp
    finally show ?thesis .
  qed
qed

lemma bind_for_each_accumulates:
  assumes "\<And>x acc. body x acc = map_sum id ((@) acc) (body x [])"
  shows "bind_e m (\<lambda>xs. for_each body xs acc) = map_sum id ((@) acc) (bind_e m (\<lambda>xs. for_each body xs []))"
proof (cases m)
  case (Inl e)
  then show ?thesis by simp
next
  case (Inr xs)
  then show ?thesis
    using for_each_accumulates [of body xs acc, OF assms] by simp
qed

lemma task_name_body_acc: "task_name_body t acc = map_sum id ((@) acc) (task_name_body t [])"
  by (cases "py_getitem_key t ''name''") (simp_all add: task_name_body_def Let_def)

lemma task_type_body_acc: "task_type_body t acc = map_sum id ((@) acc) (task_type_body t [])"
  by (cases "py_getitem_key t ''type''") (simp_all add: task_type_body_def split: json.splits)

lemma scalar_string_body_acc:
  "scalar_string_body f t acc = map_sum id ((@) acc) (scalar_string_body f t [])"
  by (cases "py_getitem_key t f") (simp_all add: scalar_string_body_def)

lemma task_scale_body_acc: "task_scale_body t acc = map_sum id ((@) acc) (task_scale_body t [])"
proof (cases "py_contains_key ''scale'' t")
  case (Inl e)
  then show ?thesis by (simp add: task_scale_body_def)
next
  case (Inr present)
  then show ?thesis
    by (cases "py_getitem_key t ''scale''") (simp_all add: task_scale_body_def Let_def)
qed

lemma range_body_acc: "range_body seqs kv acc = map_sum id ((@) acc) (range_body seqs kv [])"
proof (cases "truthy (snd kv)")
  case False
  then show ?thesis by (simp add: range_body_def Let_def)
next
  case True
  note t = this
  show ?thesis
  proof (cases "py_len (snd kv)")
    case (Inl e) with t show ?thesis by (simp add: range_body_def Let_def)
  next
    case n: (Inr n)
    show ?thesis
    proof (cases "py_iter (snd kv)")
      case (Inl e) with t n show ?thesis by (simp add: range_body_def Let_def)
    next
      case nums: (Inr nums)
      show ?thesis
      proof (cases "py_getitem_idx (snd kv) 0")
        case (Inl e) with t n nums show ?thesis by (simp add: range_body_def Let_def)
      next
        case start: (Inr start)
        show ?thesis
        proof (cases "py_getitem_idx (snd kv) 1")
          case (Inl e) with t n nums start show ?thesis by (simp add: range_body_def Let_def)
        next
          case stop: (Inr stop)
          show ?thesis
          proof (cases "py_or (py_lt start (JInt 0)) (py_lt stop (JInt 0))")
            case (Inl e) with t n nums start stop show ?thesis by (simp add: range_body_def Let_def)
          next
            case neg: (Inr neg)
            show ?thesis
            proof (cases "py_lt stop start")
              case (Inl e) with t n nums start stop neg show ?thesis by (simp add: range_body_def Let_def)
            next
              case rev: (Inr reversed)
              show ?thesis
              proof (cases "py_get seqs (fst kv) (JStr [])")
                case (Inl e) with t n nums start stop neg rev show ?thesis by (simp add: range_body_def Let_def)
              next
                case sq: (Inr sequence)
                show ?thesis
                proof (cases "py_len sequence")
                  case (Inl e) with t n nums start stop neg rev sq show ?thesis by (simp add: range_body_def Let_def)
                next
                  case sl: (Inr seq_len)
                  show ?thesis
                  proof (cases "py_or (py_le (JInt (int seq_len)) start) (py_le (JInt (int seq_len)) stop)")
                    case (Inl e) with t n nums start stop neg rev sq sl show ?thesis by (simp add: range_body_def Let_def)
                  next
                    case (Inr outside) with t n nums start stop neg rev sq sl show ?thesis by (simp add: range_body_def Let_def)
                  qed
                qed
              qed
            qed
          qed
        qed
      qed
    qed
  qed
qed


lemma check_key_values_readout_acc:
  "check_key_values_readout r acc = acc @ check_key_values_readout r []"
  by (simp add: check_key_values_readout_def Let_def)

lemma flank_check_acc: "flank_check f v acc = acc @ flank_check f v []"
  by (simp add: flank_check_def)

lemma check_prediction_task_name_acc:
  "check_prediction_task_name ts acc = map_sum id ((@) acc) (check_prediction_task_name ts [])"
  unfolding check_prediction_task_name_def
  by (rule bind_for_each_accumulates) (rule task_name_body_acc)

lemma check_prediction_task_type_acc:
  "check_prediction_task_type ts acc = map_sum id ((@) acc) (check_prediction_task_type ts [])"
  unfolding check_prediction_task_type_def
  by (rule bind_for_each_accumulates) (rule task_type_body_acc)

lemma check_prediction_task_cell_type_acc:
  "check_prediction_task_cell_type ts acc = map_sum id ((@) acc) (check_prediction_task_cell_type ts [])"
  unfolding check_prediction_task_cell_type_def
  by (rule bind_for_each_accumulates) (rule scalar_string_body_acc)

lemma check_prediction_task_species_acc:
  "check_prediction_task_species ts acc = map_sum id ((@) acc) (check_prediction_task_species ts [])"
  unfolding check_prediction_task_species_def
  by (rule bind_for_each_accumulates) (rule scalar_string_body_acc)

lemma check_prediction_task_scale_acc:
  "check_prediction_task_scale ts acc = map_sum id ((@) acc) (check_prediction_task_scale ts [])"
  unfolding check_prediction_task_scale_def
  by (rule bind_for_each_accumulates) (rule task_scale_body_acc)

lemma check_seq_ids_acc:
  "check_seq_ids pr sqs acc = map_sum id ((@) acc) (check_seq_ids pr sqs [])"
  by (cases "py_keys pr"; cases "py_keys sqs") (simp_all add: check_seq_ids_def)

lemma check_prediction_ranges_acc:
  "check_prediction_ranges pr sqs acc = map_sum id ((@) acc) (check_prediction_ranges pr sqs [])"
  unfolding check_prediction_ranges_def
  by (rule bind_for_each_accumulates) (rule range_body_acc)

lemma range_checks_acc:
  "range_checks p acc = map_sum id ((@) acc) (range_checks p [])"
proof (cases "py_contains_key ''prediction_ranges'' p")
  case (Inl e)
  then show ?thesis by (simp add: range_checks_def)
next
  case present: (Inr present)
  show ?thesis
  proof (cases "py_getitem_key p ''prediction_ranges''")
    case (Inl e)
    with present show ?thesis by (simp add: range_checks_def)
  next
    case pr: (Inr pr)
    show ?thesis
    proof (cases "py_getitem_key p ''sequences''")
      case (Inl e)
      with present pr show ?thesis by (simp add: range_checks_def)
    next
      case sqs: (Inr sqs)
      show ?thesis
      proof (cases "check_seq_ids pr sqs []")
        case (Inl e)
        with present pr sqs show ?thesis
          by (simp add: range_checks_def check_seq_ids_acc [of pr sqs acc])
      next
        case (Inr ids)
        with present pr sqs show ?thesis
          by (cases "check_prediction_ranges pr sqs []")
            (simp_all add: range_checks_def check_seq_ids_acc [of pr sqs acc]
               check_prediction_ranges_acc [of pr sqs "acc @ ids"]
               check_prediction_ranges_acc [of pr sqs ids])
      qed
    qed
  qed
qed

lemma flank_checks_acc:
  "flank_checks p acc = map_sum id ((@) acc) (flank_checks p [])"
proof (cases "py_contains_key ''upstream_seq'' p")
  case (Inl e)
  then show ?thesis by (simp add: flank_checks_def)
next
  case up: (Inr up)
  show ?thesis
  proof (cases "py_getitem_key p ''upstream_seq''")
    case u: (Inl e)
    show ?thesis
    proof (cases up)
      case True
      with up u show ?thesis by (simp add: flank_checks_def)
    next
      case False
      with up u show ?thesis
        by (cases "py_contains_key ''downstream_seq'' p"; cases "py_getitem_key p ''downstream_seq''")
          (simp_all add: flank_checks_def check_key_values_downstream_flank_def
             flank_check_acc [of _ _ acc])
    qed
  next
    case u: (Inr upstream_seq)
    show ?thesis
      using up u
      by (cases "py_contains_key ''downstream_seq'' p"; cases "py_getitem_key p ''downstream_seq''")
        (simp_all add: flank_checks_def check_key_values_downstream_flank_def
           check_key_values_upstream_flank_def
           flank_check_acc [of _ _ acc] flank_check_acc [of _ _ "acc @ _"]
           flank_check_acc [of _ _ "flank_check _ _ []"])
  qed
qed

lemma check_mandatory_keys_present:
  "set mandatory_keys \<subseteq> set keys \<Longrightarrow> check_mandatory_keys keys [] = []"
proof -
  assume "set mandatory_keys \<subseteq> set keys"
  then have "set (missing_keys mandatory_keys keys) = {}"
    by (auto simp: missing_keys_set)
  then show ?thesis
    by (simp add: check_mandatory_keys_def)
qed

section \<open>The checks after the two key-presence stages\<close>

text \<open>
  C2, as amended. The payload has the three mandatory keys and every task has its
  mandatory keys. If each of the remaining checks, run on its own from the empty
  accumulator, returns (raises no Python exception), then \<^verbatim>\<open>validate_request_payload\<close>
  runs all of them: with no message at all it returns, and otherwise it raises one
  \<^verbatim>\<open>BadRequestError\<close> (status 400) whose list is the messages of the readout check, of the
  name, type, cell type, species and scale checks, of the range checks and of the flank
  checks, all of them, in this order.
\<close>

theorem validation_reports_every_violation:
  assumes keys: "set mandatory_keys \<subseteq> set (map fst kvs)"
    and readout: "map_of kvs ''readout'' = Some readout"
    and tasks: "map_of kvs ''prediction_tasks'' = Some prediction_tasks"
    and task_keys: "check_prediction_task_mandatory_keys prediction_tasks [] = Inr []"
    and name: "check_prediction_task_name prediction_tasks [] = Inr m_name"
    and type: "check_prediction_task_type prediction_tasks [] = Inr m_type"
    and cell_type: "check_prediction_task_cell_type prediction_tasks [] = Inr m_cell_type"
    and species: "check_prediction_task_species prediction_tasks [] = Inr m_species"
    and scale: "check_prediction_task_scale prediction_tasks [] = Inr m_scale"
    and ranges: "range_checks (JDict kvs) [] = Inr m_ranges"
    and flanks: "flank_checks (JDict kvs) [] = Inr m_flanks"
  shows "validate_request_payload (JDict kvs) =
          (if check_key_values_readout readout [] @ m_name @ m_type @ m_cell_type @ m_species
                @ m_scale @ m_ranges @ m_flanks = []
           then Inr ()
           else Inl (BadRequestError (MsgList
                  (check_key_values_readout readout [] @ m_name @ m_type @ m_cell_type @ m_species
                    @ m_scale @ m_ranges @ m_flanks))))"
proof -
  let ?m0 = "check_key_values_readout readout []"
  have r: "remaining_checks (JDict kvs) [] =
             Inr (?m0 @ m_name @ m_type @ m_cell_type @ m_species @ m_scale @ m_ranges @ m_flanks)"
    unfolding remaining_checks_def Let_def
    by (simp add: readout tasks
          check_prediction_task_name_acc [of _ ?m0] name
          check_prediction_task_type_acc [of _ "?m0 @ m_name"] type
          check_prediction_task_cell_type_acc [of _ "?m0 @ m_name @ m_type"] cell_type
          check_prediction_task_species_acc [of _ "?m0 @ m_name @ m_type @ m_cell_type"] species
          check_prediction_task_scale_acc [of _ "?m0 @ m_name @ m_type @ m_cell_type @ m_species"] scale
          range_checks_acc [of _ "?m0 @ m_name @ m_type @ m_cell_type @ m_species @ m_scale"] ranges
          flank_checks_acc [of _ "?m0 @ m_name @ m_type @ m_cell_type @ m_species @ m_scale @ m_ranges"]
          flanks)
  show ?thesis
    unfolding validate_request_payload_def Let_def
    by (simp add: check_mandatory_keys_present [OF keys] raise_if_any_def tasks task_keys r)
qed

text \<open>
  A payload with one violation in each of four checks: an unknown readout, an unknown
  task type, a range with start above end, and a flank that is a number. The error
  carries the four messages.
\<close>

theorem validation_reports_every_violation_witness:
  "validate_request_payload
     (JDict [(''readout'', JStr ''bad''),
             (''prediction_tasks'',
                JList [JDict [(''name'', JStr ''t''), (''type'', JStr ''foo''),
                              (''cell_type'', JStr ''c''), (''species'', JStr ''h'')]]),
             (''sequences'', JDict [(''s1'', JStr ''AAAA'')]),
             (''prediction_ranges'', JDict [(''s1'', JList [JInt 2, JInt 1])]),
             (''upstream_seq'', JInt 5)]) =
   Inl (BadRequestError (MsgList
     [''readout requested is not recognized. Please choose from ['' @ quoted ''point'' @ '', ''
        @ quoted ''track'' @ '', '' @ quoted ''interaction_matrix'' @ '']'',
      ''prediction type foo is not recognized'',
      ''Invalid range for '' @ quoted ''s1'' @ '' in '' @ quoted ''prediction_ranges''
        @ '': start index (2) cannot be greater than end index (1). Received [2, 1]'',
      quoted ''upstream_seq'' @ '' value should be a string'']))"
proof -
  let ?tasks = "JList [JDict [(''name'', JStr ''t''), (''type'', JStr ''foo''),
                              (''cell_type'', JStr ''c''), (''species'', JStr ''h'')]]"
  let ?kvs = "[(''readout'', JStr ''bad''), (''prediction_tasks'', ?tasks),
             (''sequences'', JDict [(''s1'', JStr ''AAAA'')]),
             (''prediction_ranges'', JDict [(''s1'', JList [JInt 2, JInt 1])]),
             (''upstream_seq'', JInt 5)]"
  have keys: "set mandatory_keys \<subseteq> set (map fst ?kvs)"
    by (simp add: mandatory_keys_def)
  have readout: "map_of ?kvs ''readout'' = Some (JStr ''bad'')"
    by simp
  have tasks: "map_of ?kvs ''prediction_tasks'' = Some ?tasks"
    by simp
  have task_keys: "check_prediction_task_mandatory_keys ?tasks [] = Inr []"
    by code_simp
  have name: "check_prediction_task_name ?tasks [] = Inr []"
    by code_simp
  have type: "check_prediction_task_type ?tasks [] = Inr [''prediction type foo is not recognized'']"
    by code_simp
  have cell_type: "check_prediction_task_cell_type ?tasks [] = Inr []"
    by code_simp
  have species: "check_prediction_task_species ?tasks [] = Inr []"
    by code_simp
  have scale: "check_prediction_task_scale ?tasks [] = Inr []"
    by code_simp
  have ranges: "range_checks (JDict ?kvs) [] =
      Inr [''Invalid range for '' @ quoted ''s1'' @ '' in '' @ quoted ''prediction_ranges''
        @ '': start index (2) cannot be greater than end index (1). Received [2, 1]'']"
    by code_simp
  have flanks: "flank_checks (JDict ?kvs) [] = Inr [quoted ''upstream_seq'' @ '' value should be a string'']"
    by code_simp
  have m0: "check_key_values_readout (JStr ''bad'') [] =
     [''readout requested is not recognized. Please choose from ['' @ quoted ''point'' @ '', ''
        @ quoted ''track'' @ '', '' @ quoted ''interaction_matrix'' @ '']'']"
    by code_simp
  show ?thesis
    using validation_reports_every_violation
      [OF keys readout tasks task_keys name type cell_type species scale ranges flanks]
    unfolding m0 by simp
qed

text \<open>
  C2 as stated fails where a check raises instead of returning. The payload
  \<^verbatim>\<open>{"readout": "bad", "prediction_tasks": [], "sequences": {}, "prediction_ranges": [[0, 1]]}\<close>
  passes both key-presence stages and violates the readout check, but \<^verbatim>\<open>prediction_ranges\<close> is a list:
  \<^verbatim>\<open>check_seq_ids\<close> calls \<^verbatim>\<open>keys()\<close> on it, and the validation ends with
  \<^verbatim>\<open>AttributeError\<close> instead of a 400 (no check of the validator looks at the type of a
  container).
\<close>

theorem validation_non_object_ranges_counterexample:
  "check_mandatory_keys [''readout'', ''prediction_tasks'', ''sequences'', ''prediction_ranges''] [] = []
   \<and> check_prediction_task_mandatory_keys (JList []) [] = Inr []
   \<and> check_key_values_readout (JStr ''bad'') [] \<noteq> []
   \<and> validate_request_payload
         (JDict [(''readout'', JStr ''bad''), (''prediction_tasks'', JList []),
                 (''sequences'', JDict []),
                 (''prediction_ranges'', JList [JList [JInt 0, JInt 1]])]) = Inl (PyExc AttributeError)"
  by code_simp

section \<open>Ranges of two integers\<close>

text \<open>
  For a range \<open>[a, b]\<close> of two integers and a sequence that is a string of length \<open>n\<close> (or
  is absent, \<open>n = 0\<close>), the loop body of \<^verbatim>\<open>check_prediction_ranges\<close> returns, and it
  appends one message for each condition the range violates: a negative index, start
  above end, and an index that is not below \<open>n\<close>, where the last message tells the empty or
  absent sequence from the index out of bounds.
\<close>

lemma range_of_two_integers:
  assumes "map_of seqs key = None \<and> n = 0 \<or> (\<exists>s. map_of seqs key = Some (JStr s) \<and> n = length s)"
  shows "range_body (JDict seqs) (key, JList [JInt a, JInt b]) acc =
     Inr (acc
       @ (if a < 0 \<or> b < 0
          then [''Invalid range for '' @ quoted key @ '' in '' @ quoted ''prediction_ranges''
                 @ '': indices must be positive. Received ['' @ show_int a @ '', '' @ show_int b @ '']'']
          else [])
       @ (if b < a
          then [''Invalid range for '' @ quoted key @ '' in '' @ quoted ''prediction_ranges''
                 @ '': start index ('' @ show_int a @ '') cannot be greater than end index (''
                 @ show_int b @ ''). Received ['' @ show_int a @ '', '' @ show_int b @ '']'']
          else [])
       @ (if int n \<le> a \<or> int n \<le> b
          then [if n = 0
                then ''Invalid range for '' @ quoted key
                       @ '': cannot specify a range for a non-existent or empty sequence.''
                else ''Invalid range for '' @ quoted key
                       @ '': index is out of bounds. The maximum valid index for a sequence of length ''
                       @ show_int (int n) @ '' is '' @ show_int (int n - 1) @ ''.'']
          else []))"
proof -
  have g: "bind_e (py_get (JDict seqs) key (JStr [])) (\<lambda>sequence. bind_e (py_len sequence) f) = f n"
    for f :: "nat \<Rightarrow> error + errors"
    using assms by auto
  have lt: "py_lt (JInt x) (JInt y) = Inr (x < y)" for x y
    by (simp add: py_lt_def num_less_def)
  have le: "py_le (JInt x) (JInt y) = Inr (x \<le> y)" for x y
    by (simp add: py_le_def num_le_def)
  show ?thesis
    unfolding range_body_def Let_def
    by (simp add: g lt le py_or_def py_str_def del: py_get.simps)
qed

text \<open>
  The sequences \<^verbatim>\<open>{"s1": "AAAA"}\<close> with the range \<open>[0, 5]\<close>: a 400 whose message names the
  maximum valid index 3.
\<close>

lemma range_out_of_bounds_example:
  "validate_request_payload
     (JDict [(''readout'', JStr ''point''),
             (''prediction_tasks'',
                JList [JDict [(''name'', JStr ''t''), (''type'', JStr ''expression''),
                              (''cell_type'', JStr ''c''), (''species'', JStr ''h'')]]),
             (''sequences'', JDict [(''s1'', JStr ''AAAA'')]),
             (''prediction_ranges'', JDict [(''s1'', JList [JInt 0, JInt 5])])]) =
   Inl (BadRequestError (MsgList
     [''Invalid range for '' @ quoted ''s1''
        @ '': index is out of bounds. The maximum valid index for a sequence of length 4 is 3.'']))"
  by code_simp

section \<open>Range values that end the validation with an exception\<close>

text \<open>
  After the message about the number of elements, or about the value that is no list,
  the loop body goes on to \<^verbatim>\<open>len(value)\<close>, \<^verbatim>\<open>value[0]\<close> and \<^verbatim>\<open>value[1]\<close>: a list of one
  element ends in \<^verbatim>\<open>IndexError\<close> and a number other than 0 in \<^verbatim>\<open>TypeError\<close>, whatever
  was accumulated.
\<close>

lemma range_of_one_element:
  "range_body seqs (key, JList [x]) acc = Inl (PyExc IndexError)"
  by (simp add: range_body_def Let_def)

lemma range_that_is_a_number:
  "i \<noteq> 0 \<Longrightarrow> range_body seqs (key, JInt i) acc = Inl (PyExc TypeError)"
  by (simp add: range_body_def Let_def)

text \<open>
  C3. The specification has every malformed range value make the validation fail with a 400 and
  one message per violated condition. For the payload
  \<^verbatim>\<open>{"readout": "point", "prediction_tasks": [{"name": "t", "type": "expression",
  "cell_type": "c", "species": "h"}], "sequences": {"s1": "AAAA"},
  "prediction_ranges": {"s1": [0]}}\<close>
  \<^verbatim>\<open>check_prediction_ranges\<close> appends the message about two elements and then reads
  \<^verbatim>\<open>value[1]\<close>: the validation ends with \<^verbatim>\<open>IndexError\<close>, which is no \<^verbatim>\<open>APIError\<close> and
  carries no message list.
\<close>

theorem short_range_list_raises_index_error:
  "validate_request_payload
     (JDict [(''readout'', JStr ''point''),
             (''prediction_tasks'',
                JList [JDict [(''name'', JStr ''t''), (''type'', JStr ''expression''),
                              (''cell_type'', JStr ''c''), (''species'', JStr ''h'')]]),
             (''sequences'', JDict [(''s1'', JStr ''AAAA'')]),
             (''prediction_ranges'', JDict [(''s1'', JList [JInt 0])])]) = Inl (PyExc IndexError)
   \<and> status_code (PyExc IndexError) = 500"
  by code_simp

section \<open>Flanking and trimming\<close>

text \<open>
  The payloads of this section are typed as the data model has them: \<^verbatim>\<open>sequences\<close> maps
  ids to strings, a flank is a string when it is present, and \<^verbatim>\<open>prediction_ranges\<close>, when it
  is present, maps ids of \<^verbatim>\<open>sequences\<close> to \<open>[]\<close> or to \<open>[start, end]\<close> with two
  non-negative integers.
\<close>

lemma py_slice_inclusive:
  "py_slice s (int a) (int b + 1) = inclusive_slice s a b"
proof -
  have i: "int b + 1 = int (Suc b)" by simp
  have "py_slice s (int a) (int (Suc b)) = take (min (Suc b) (length s) - min a (length s)) (drop (min a (length s)) s)"
    by (simp add: py_slice_def slice_index_def Let_def del: of_nat_Suc)
  also have "\<dots> = take (Suc b - a) (drop a s)"
  proof (cases "a < length s")
    case True
    then have "min (Suc b) (length s) - min a (length s) = min (Suc b - a) (length s - a)"
      by (auto simp: min_def)
    with True show ?thesis
      by (simp add: min_def take_all_iff)
  next
    case False
    then show ?thesis by simp
  qed
  finally show ?thesis unfolding i by (simp add: inclusive_slice_def)
qed

lemma map_of_str_dict:
  "map_of (map (\<lambda>it. (fst it, JStr (g (fst it) (snd it)))) ds) k =
     map_option (\<lambda>t. JStr (g k t)) (map_of ds k)"
  by (induction ds) auto

lemma dict_set_str_dict:
  assumes "distinct (map fst ds)" "map_of ds k = Some t"
  shows "dict_set k (JStr v) (map (\<lambda>it. (fst it, JStr (g (fst it) (snd it)))) ds) =
         map (\<lambda>it. (fst it, JStr ((\<lambda>k' t'. if k' = k then v else g k' t') (fst it) (snd it)))) ds"
  using assms
proof (induction ds)
  case Nil
  then show ?case by simp
next
  case (Cons d ds)
  show ?case
  proof (cases "fst d = k")
    case True
    then have "k \<notin> fst ` set ds"
      using Cons.prems(1) by auto
    then have "map (\<lambda>it. (fst it, JStr (if fst it = k then v else g (fst it) (snd it)))) ds
             = map (\<lambda>it. (fst it, JStr (g (fst it) (snd it)))) ds"
      by (intro map_cong) auto
    with True show ?thesis by simp
  next
    case False
    then have "map_of ds k = Some t"
      using Cons.prems(2) by (cases d) auto
    with False Cons show ?thesis by simp
  qed
qed

lemma trim_loop:
  assumes "distinct (map fst ds)" "distinct (map fst rs)" "set (map fst rs) \<subseteq> set (map fst ds)"
  shows "for_each trim_body (map (\<lambda>it. (fst it, range_json (snd it))) rs)
           (JDict (map (\<lambda>it. (fst it, JStr (g (fst it) (snd it)))) ds)) =
         Inr (JDict (map (\<lambda>it. (fst it, JStr (trimmed (map_of rs (fst it)) (g (fst it) (snd it))))) ds))"
  using assms(2,3)
proof (induction rs arbitrary: g)
  case Nil
  show ?case by (simp add: trimmed_def)
next
  case (Cons r rs)
  obtain k se where r: "r = (k, se)" by (cases r)
  have k_new: "k \<notin> fst ` set rs" and d: "distinct (map fst rs)"
    and sub: "set (map fst rs) \<subseteq> set (map fst ds)" and k_in: "k \<in> fst ` set ds"
    using Cons.prems r by auto
  then have none: "map_of rs k = None"
    by (simp add: map_of_eq_None_iff)
  obtain t where t: "map_of ds k = Some t"
    using k_in by (metis map_of_eq_None_iff not_Some_eq)
  show ?case
  proof (cases se)
    case None
    have "map (\<lambda>it. (fst it, JStr (trimmed (map_of ((k, None) # rs) (fst it)) (g (fst it) (snd it))))) ds
        = map (\<lambda>it. (fst it, JStr (trimmed (map_of rs (fst it)) (g (fst it) (snd it))))) ds"
      by (intro map_cong) (auto simp: none trimmed_def)
    then show ?thesis
      using Cons.IH [OF d sub, of g] r None by (simp add: trim_body_def)
  next
    case (Some ab)
    let ?v = "inclusive_slice (g k t) (fst ab) (snd ab)"
    let ?g = "\<lambda>k' t'. if k' = k then ?v else g k' t'"
    have step: "trim_body (k, range_json (Some ab)) (JDict (map (\<lambda>it. (fst it, JStr (g (fst it) (snd it)))) ds))
        = Inr (JDict (map (\<lambda>it. (fst it, JStr (?g (fst it) (snd it)))) ds))"
      using dict_set_str_dict [OF assms(1) t, of ?v g]
      by (simp add: trim_body_def py_unpack2_def map_of_str_dict t py_slice_inclusive
            del: py_slice_inclusive [symmetric])
    have "map (\<lambda>it. (fst it, JStr (trimmed (map_of rs (fst it)) (?g (fst it) (snd it))))) ds
        = map (\<lambda>it. (fst it, JStr (trimmed (map_of ((k, Some ab) # rs) (fst it)) (g (fst it) (snd it))))) ds"
    proof (intro map_cong refl)
      fix it assume "it \<in> set ds"
      then have "map_of ds (fst it) = Some (snd it)"
        using map_of_is_SomeI [OF assms(1), of "fst it" "snd it"] by simp
      then have "fst it = k \<Longrightarrow> snd it = t"
        using t by simp
      then show "(fst it, JStr (trimmed (map_of rs (fst it)) (?g (fst it) (snd it))))
               = (fst it, JStr (trimmed (map_of ((k, Some ab) # rs) (fst it)) (g (fst it) (snd it))))"
        by (auto simp: none trimmed_def)
    qed
    then show ?thesis
      using Cons.IH [OF d sub, of ?g] r Some step by simp
  qed
qed

lemma py_contains_key_dict:
  "py_contains_key k (JDict kvs) = Inr (map_of kvs k \<noteq> None)"
  by (simp add: map_of_eq_None_iff)

lemma flank_step_strings:
  assumes up: "map_of kvs ''upstream_seq'' = None \<and> up = [] \<or> map_of kvs ''upstream_seq'' = Some (JStr up)"
    and down: "map_of kvs ''downstream_seq'' = None \<and> down = [] \<or> map_of kvs ''downstream_seq'' = Some (JStr down)"
  shows "flank_step (JDict kvs) (JDict (map (\<lambda>it. (fst it, JStr (snd it))) seqs)) =
         Inr (JDict (map (\<lambda>it. (fst it, JStr (up @ snd it @ down))) seqs))"
proof -
  have g_up: "py_get (JDict kvs) ''upstream_seq'' (JStr []) = Inr (JStr up)"
    using up by auto
  have g_down: "py_get (JDict kvs) ''downstream_seq'' (JStr []) = Inr (JStr down)"
    using down by auto
  show ?thesis
  proof (cases "map_of kvs ''upstream_seq'' = None \<and> map_of kvs ''downstream_seq'' = None")
    case True
    then have "up = []" "down = []"
      using up down by auto
    with True show ?thesis
      by (simp add: flank_step_def py_contains_key_dict del: py_contains_key.simps)
  next
    case False
    then have either: "bind_e (py_contains_key ''upstream_seq'' (JDict kvs))
        (\<lambda>up. bind_e (if up then Inr True else py_contains_key ''downstream_seq'' (JDict kvs)) f) = f True" for f :: "bool \<Rightarrow> error + json"
      by (auto simp: py_contains_key_dict simp del: py_contains_key.simps)
    show ?thesis
      unfolding flank_step_def either
      by (simp add: g_up g_down apply_flanks_def py_str_def comp_def del: py_get.simps)
  qed
qed

lemma transformed_sequences_typed:
  assumes seqs: "map_of kvs ''sequences'' = Some (JDict (map (\<lambda>it. (fst it, JStr (snd it))) seqs))"
    and dseq: "distinct (map fst seqs)"
    and up: "map_of kvs ''upstream_seq'' = None \<and> up = [] \<or> map_of kvs ''upstream_seq'' = Some (JStr up)"
    and down: "map_of kvs ''downstream_seq'' = None \<and> down = [] \<or> map_of kvs ''downstream_seq'' = Some (JStr down)"
    and ranges: "map_of kvs ''prediction_ranges'' = None \<and> rs = []
                 \<or> map_of kvs ''prediction_ranges'' = Some (JDict (map (\<lambda>it. (fst it, range_json (snd it))) rs))"
    and drs: "distinct (map fst rs)"
    and sub: "set (map fst rs) \<subseteq> set (map fst seqs)"
  shows "transformed_sequences (JDict kvs) =
         Inr (JDict (map (\<lambda>it. (fst it, JStr (trimmed (map_of rs (fst it)) (up @ snd it @ down)))) seqs))"
proof -
  let ?flanked = "JDict (map (\<lambda>it. (fst it, JStr (up @ snd it @ down))) seqs)"
  have "range_step (JDict kvs) ?flanked =
        Inr (JDict (map (\<lambda>it. (fst it, JStr (trimmed (map_of rs (fst it)) (up @ snd it @ down)))) seqs))"
  proof (cases "map_of kvs ''prediction_ranges''")
    case None
    then have "rs = []" using ranges by auto
    with None show ?thesis
      by (simp add: range_step_def py_contains_key_dict trimmed_def del: py_contains_key.simps)
  next
    case (Some pr)
    then have pr: "pr = JDict (map (\<lambda>it. (fst it, range_json (snd it))) rs)"
      using ranges by auto
    show ?thesis
      using trim_loop [OF dseq drs sub, of "\<lambda>k s. up @ s @ down"] Some pr
      by (simp add: range_step_def py_contains_key_dict del: py_contains_key.simps)
  qed
  then show ?thesis
    by (simp add: transformed_sequences_def seqs flank_step_strings [OF up down])
qed

lemma seq_messages_empty_iff: "seq_messages k s = [] \<longleftrightarrow> valid_sequence s"
  by (auto simp: seq_messages_def valid_sequence_def filter_empty_conv)

lemma seq_spec_loop:
  "for_each seq_spec_body (map (\<lambda>it. (fst it, JStr (f it))) xs) acc =
     Inr (acc @ concat (map (\<lambda>it. seq_messages (fst it) (f it)) xs))"
  by (induction xs arbitrary: acc) (simp_all add: seq_spec_body_def seq_messages_def Let_def)

lemma check_seqs_specifications_strings:
  "check_seqs_specifications (JDict (map (\<lambda>it. (fst it, JStr (f it))) xs)) [] =
     Inr (concat (map (\<lambda>it. seq_messages (fst it) (f it)) xs))"
  by (simp add: check_seqs_specifications_def seq_spec_loop)

lemma concat_seq_messages_empty_iff:
  "concat (map (\<lambda>it. seq_messages (fst it) (f it)) xs) = [] \<longleftrightarrow> list_all (\<lambda>it. valid_sequence (f it)) xs"
  by (induction xs) (simp_all add: seq_messages_empty_iff)

text \<open>
  C4. \<^verbatim>\<open>preprocess_data\<close> turns every sequence \<open>s\<close> into \<open>upstream + s + downstream\<close> (an
  absent flank counts as the empty string), and then replaces the sequence of every id
  that has a range \<open>[start, end]\<close> by the inclusive slice \<open>[start, end]\<close> of the flanked
  sequence; an id with the range \<open>[]\<close>, or with none, keeps its flanked sequence. These are
  the sequences after lines 55 to 84, and they are what \<^verbatim>\<open>preprocess_data\<close> returns when
  the readout is point or track and all of them meet the model specifications.
\<close>

theorem flanking_precedes_trimming:
  assumes seqs: "map_of kvs ''sequences'' = Some (JDict (map (\<lambda>it. (fst it, JStr (snd it))) seqs))"
    and dseq: "distinct (map fst seqs)"
    and up: "map_of kvs ''upstream_seq'' = None \<and> up = [] \<or> map_of kvs ''upstream_seq'' = Some (JStr up)"
    and down: "map_of kvs ''downstream_seq'' = None \<and> down = [] \<or> map_of kvs ''downstream_seq'' = Some (JStr down)"
    and ranges: "map_of kvs ''prediction_ranges'' = None \<and> rs = []
                 \<or> map_of kvs ''prediction_ranges'' = Some (JDict (map (\<lambda>it. (fst it, range_json (snd it))) rs))"
    and drs: "distinct (map fst rs)"
    and sub: "set (map fst rs) \<subseteq> set (map fst seqs)"
  shows "transformed_sequences (JDict kvs) =
           Inr (JDict (map (\<lambda>it. (fst it, JStr (trimmed (map_of rs (fst it)) (up @ snd it @ down)))) seqs))
         \<and> (map_of kvs ''readout'' \<in> {Some (JStr ''point''), Some (JStr ''track'')}
            \<and> list_all (\<lambda>it. valid_sequence (trimmed (map_of rs (fst it)) (up @ snd it @ down))) seqs
            \<longrightarrow> preprocess_data (JDict kvs) =
                  Inr (JDict (map (\<lambda>it. (fst it, JStr (trimmed (map_of rs (fst it)) (up @ snd it @ down)))) seqs)))"
proof -
  let ?final = "\<lambda>it. trimmed (map_of rs (fst it)) (up @ snd it @ down)"
  have t: "transformed_sequences (JDict kvs) = Inr (JDict (map (\<lambda>it. (fst it, JStr (?final it))) seqs))"
    by (rule transformed_sequences_typed [OF assms])
  have "preprocess_data (JDict kvs) = Inr (JDict (map (\<lambda>it. (fst it, JStr (?final it))) seqs))"
    if r: "map_of kvs ''readout'' \<in> {Some (JStr ''point''), Some (JStr ''track'')}"
      and v: "list_all (\<lambda>it. valid_sequence (?final it)) seqs"
  proof -
    have c: "check_seqs_specifications (JDict (map (\<lambda>it. (fst it, JStr (?final it))) seqs)) [] = Inr []"
      using v by (simp only: check_seqs_specifications_strings concat_seq_messages_empty_iff [THEN iffD2])
    from r show ?thesis
      by (auto simp: preprocess_data_def t c)
  qed
  with t show ?thesis by blast
qed

text \<open>
  With \<^verbatim>\<open>upstream_seq\<close> "CG" and the sequence "AT", the range \<open>[0, 1]\<close> yields "CG", the
  first two characters of the flanked "CGAT"; the range \<open>[]\<close> leaves "CGAT".
\<close>

theorem flanking_precedes_trimming_witness:
  "preprocess_data
     (JDict [(''readout'', JStr ''point''), (''sequences'', JDict [(''s1'', JStr ''AT'')]),
             (''upstream_seq'', JStr ''CG''),
             (''prediction_ranges'', JDict [(''s1'', JList [JInt 0, JInt 1])])]) =
     Inr (JDict [(''s1'', JStr ''CG'')])
   \<and> transformed_sequences
     (JDict [(''readout'', JStr ''point''), (''sequences'', JDict [(''s1'', JStr ''AT'')]),
             (''upstream_seq'', JStr ''CG''),
             (''prediction_ranges'', JDict [(''s1'', JList [])])]) =
     Inr (JDict [(''s1'', JStr ''CGAT'')])"
proof -
  let ?kvs = "[(''readout'', JStr ''point''), (''sequences'', JDict [(''s1'', JStr ''AT'')]),
             (''upstream_seq'', JStr ''CG''),
             (''prediction_ranges'', JDict [(''s1'', JList [JInt 0, JInt 1])])]"
  let ?kvs' = "[(''readout'', JStr ''point''), (''sequences'', JDict [(''s1'', JStr ''AT'')]),
             (''upstream_seq'', JStr ''CG''),
             (''prediction_ranges'', JDict [(''s1'', JList [])])]"
  have v: "valid_sequence ''CG''"
    by code_simp
  have a: "preprocess_data (JDict ?kvs) = Inr (JDict [(''s1'', JStr ''CG'')])"
    using flanking_precedes_trimming
      [of ?kvs "[(''s1'', ''AT'')]" "''CG''" "[]" "[(''s1'', Some (0, 1))]"] v
    by (simp add: trimmed_def inclusive_slice_def)
  have b: "transformed_sequences (JDict ?kvs') = Inr (JDict [(''s1'', JStr ''CGAT'')])"
    using flanking_precedes_trimming
      [of ?kvs' "[(''s1'', ''AT'')]" "''CG''" "[]" "[(''s1'', None)]"]
    by (simp add: trimmed_def)
  from a b show ?thesis by simp
qed

section \<open>An unsupported readout is reported before the sequence violations\<close>

text \<open>
  C10. The payload is typed as above, its readout is neither "point" nor "track", and
  one of its sequences, after flanking and trimming, is empty or has a character outside
  the alphabet. Then \<^verbatim>\<open>preprocess_data\<close> raises the \<^verbatim>\<open>BadRequestError\<close> (status 400) about
  the readout and no \<^verbatim>\<open>PredictionFailedError\<close>, although the list of sequence violations
  is not empty.
\<close>

theorem unsupported_readout_hides_sequence_violations:
  assumes seqs: "map_of kvs ''sequences'' = Some (JDict (map (\<lambda>it. (fst it, JStr (snd it))) seqs))"
    and dseq: "distinct (map fst seqs)"
    and up: "map_of kvs ''upstream_seq'' = None \<and> up = [] \<or> map_of kvs ''upstream_seq'' = Some (JStr up)"
    and down: "map_of kvs ''downstream_seq'' = None \<and> down = [] \<or> map_of kvs ''downstream_seq'' = Some (JStr down)"
    and ranges: "map_of kvs ''prediction_ranges'' = None \<and> rs = []
                 \<or> map_of kvs ''prediction_ranges'' = Some (JDict (map (\<lambda>it. (fst it, range_json (snd it))) rs))"
    and drs: "distinct (map fst rs)"
    and sub: "set (map fst rs) \<subseteq> set (map fst seqs)"
    and readout: "map_of kvs ''readout'' = Some readout"
    and unsupported: "readout \<notin> {JStr ''point'', JStr ''track''}"
    and violation: "\<not> list_all (\<lambda>it. valid_sequence (trimmed (map_of rs (fst it)) (up @ snd it @ down))) seqs"
  shows "preprocess_data (JDict kvs) =
           Inl (BadRequestError (MsgStr
             (''Test Predictor cannot process '' @ quoted (py_str readout) @ '' readout type.'')))
         \<and> status_code (BadRequestError (MsgStr
             (''Test Predictor cannot process '' @ quoted (py_str readout) @ '' readout type.''))) = 400
         \<and> (\<forall>m. preprocess_data (JDict kvs) \<noteq> Inl (PredictionFailedError m))
         \<and> concat (map (\<lambda>it. seq_messages (fst it) (trimmed (map_of rs (fst it)) (up @ snd it @ down))) seqs) \<noteq> []"
proof -
  let ?final = "\<lambda>it. trimmed (map_of rs (fst it)) (up @ snd it @ down)"
  have t: "transformed_sequences (JDict kvs) = Inr (JDict (map (\<lambda>it. (fst it, JStr (?final it))) seqs))"
    by (rule transformed_sequences_typed [OF seqs dseq up down ranges drs sub])
  have c: "check_seqs_specifications (JDict (map (\<lambda>it. (fst it, JStr (?final it))) seqs)) [] =
           Inr (concat (map (\<lambda>it. seq_messages (fst it) (?final it)) seqs))"
    by (rule check_seqs_specifications_strings)
  have p: "preprocess_data (JDict kvs) =
           Inl (BadRequestError (MsgStr
             (''Test Predictor cannot process '' @ quoted (py_str readout) @ '' readout type.'')))"
    using unsupported by (simp add: preprocess_data_def t c readout)
  have "concat (map (\<lambda>it. seq_messages (fst it) (?final it)) seqs) \<noteq> []"
    using violation by (simp only: concat_seq_messages_empty_iff not_False_eq_True)
  with p show ?thesis by simp
qed

text \<open>
  The same two bad sequences with the readout "interaction_matrix" (400 about the
  readout) and with the readout "point" (422 with both violations).
\<close>

theorem unsupported_readout_hides_sequence_violations_witness:
  "preprocess_data
     (JDict [(''readout'', JStr ''interaction_matrix''),
             (''sequences'', JDict [(''s1'', JStr ''''), (''s2'', JStr ''AXG'')])]) =
     Inl (BadRequestError (MsgStr
       (''Test Predictor cannot process '' @ quoted ''interaction_matrix'' @ '' readout type.'')))
   \<and> preprocess_data
     (JDict [(''readout'', JStr ''point''),
             (''sequences'', JDict [(''s1'', JStr ''''), (''s2'', JStr ''AXG'')])]) =
     Inl (PredictionFailedError (MsgList
       [''sequence '' @ quoted ''s1'' @ '' is empty'',
        ''sequence '' @ quoted ''s2'' @ '' has invalid character(s): {'' @ quoted ''X'' @ ''}'']))"
proof -
  let ?kvs = "[(''readout'', JStr ''interaction_matrix''),
             (''sequences'', JDict [(''s1'', JStr ''''), (''s2'', JStr ''AXG'')])]"
  have v: "\<not> valid_sequence ''''"
    by (simp add: valid_sequence_def)
  have a: "preprocess_data (JDict ?kvs) =
     Inl (BadRequestError (MsgStr
       (''Test Predictor cannot process '' @ quoted ''interaction_matrix'' @ '' readout type.'')))"
    using unsupported_readout_hides_sequence_violations
      [of ?kvs "[(''s1'', ''''), (''s2'', ''AXG'')]" "[]" "[]" "[]" "JStr ''interaction_matrix''"] v
    by (simp add: trimmed_def py_str_def)
  have b: "preprocess_data
     (JDict [(''readout'', JStr ''point''),
             (''sequences'', JDict [(''s1'', JStr ''''), (''s2'', JStr ''AXG'')])]) =
     Inl (PredictionFailedError (MsgList
       [''sequence '' @ quoted ''s1'' @ '' is empty'',
        ''sequence '' @ quoted ''s2'' @ '' has invalid character(s): {'' @ quoted ''X'' @ ''}'']))"
    by code_simp
  from a b show ?thesis by simp
qed

section \<open>The scale of a validated payload\<close>

text \<open>
  When \<^verbatim>\<open>validate_request_payload\<close> returns, every task is an object whose \<^verbatim>\<open>scale\<close> is
  absent, "linear" or "log". These are the scales \<^verbatim>\<open>predict_cpg\<close> is called with.
\<close>

lemma accumulated_Inr:
  assumes "map_sum id ((@) acc) m = Inr r"
  shows "\<exists>own. m = Inr own \<and> r = acc @ own"
  using assms by (cases m) auto

lemma for_each_each:
  assumes acc: "\<And>x acc. body x acc = map_sum id ((@) acc) (body x [])"
    and r: "for_each body xs [] = Inr []"
    and x: "x \<in> set xs"
  shows "body x [] = Inr []"
  using r x
proof (induction xs)
  case Nil
  then show ?case by simp
next
  case (Cons y ys)
  obtain e where e: "body y [] = Inr e" and rest: "for_each body ys e = Inr []"
    using Cons.prems(1) by (cases "body y []") auto
  have "map_sum id ((@) e) (for_each body ys []) = Inr []"
    using rest for_each_accumulates [of body ys e, OF acc] by simp
  then obtain own where "for_each body ys [] = Inr own" "[] = e @ own"
    using accumulated_Inr by blast
  then have "e = []" "for_each body ys [] = Inr []"
    by auto
  with e Cons show ?case by auto
qed

lemma task_scale_body_clean:
  assumes "task_scale_body (JDict tkvs) [] = Inr []"
  shows "map_of tkvs ''scale'' \<in> {None, Some (JStr ''linear''), Some (JStr ''log'')}"
proof (cases "map_of tkvs ''scale''")
  case None
  then show ?thesis by simp
next
  case (Some v)
  then have present: "''scale'' \<in> fst ` set tkvs"
    by (metis domI dom_map_of_conv_image_fst)
  have "v = JStr ''linear'' \<or> v = JStr ''log''"
    using assms Some present
    by (simp add: task_scale_body_def Let_def split: if_splits)
  with Some show ?thesis by auto
qed

lemma task_name_body_dict:
  assumes "task_name_body t [] = Inr e"
  shows "\<exists>tkvs. t = JDict tkvs"
  using assms by (cases t) (simp_all add: task_name_body_def)

lemma validated_scale:
  assumes v: "validate_request_payload (JDict kvs) = Inr ()"
    and tasks: "map_of kvs ''prediction_tasks'' = Some (JList tasks)"
    and t: "t \<in> set tasks"
  shows "\<exists>tkvs. t = JDict tkvs
           \<and> map_of tkvs ''scale'' \<in> {None, Some (JStr ''linear''), Some (JStr ''log'')}"
proof -
  have "\<exists>e1 e2. remaining_checks (JDict kvs) e1 = Inr e2 \<and> e2 = []"
    using v tasks
    by (auto simp: validate_request_payload_def Let_def raise_if_any_def bind_e_Inr_iff
          split: if_splits)
  then obtain e1 where "remaining_checks (JDict kvs) e1 = Inr []"
    by blast
  then obtain readout a2 a3 a4 a5 a6 a7 where
    name: "check_prediction_task_name (JList tasks) (check_key_values_readout readout e1) = Inr a2"
    and "check_prediction_task_type (JList tasks) a2 = Inr a3"
    and "check_prediction_task_cell_type (JList tasks) a3 = Inr a4"
    and "check_prediction_task_species (JList tasks) a4 = Inr a5"
    and scale: "check_prediction_task_scale (JList tasks) a5 = Inr a6"
    and ranges: "range_checks (JDict kvs) a6 = Inr a7"
    and flanks: "flank_checks (JDict kvs) a7 = Inr []"
    using tasks
    by (auto simp: remaining_checks_def Let_def bind_e_Inr_iff)
  have "a7 = []"
    using flanks flank_checks_acc [of "JDict kvs" a7] accumulated_Inr by fastforce
  then have "a6 = []"
    using ranges range_checks_acc [of "JDict kvs" a6] accumulated_Inr by fastforce
  then have "check_prediction_task_scale (JList tasks) [] = Inr []"
    using scale check_prediction_task_scale_acc [of "JList tasks" a5] accumulated_Inr by fastforce
  then have s: "for_each task_scale_body tasks [] = Inr []"
    by (simp add: check_prediction_task_scale_def)
  have clean: "task_scale_body t [] = Inr []"
    by (rule for_each_each [OF task_scale_body_acc s t])
  obtain own where "check_prediction_task_name (JList tasks) [] = Inr own"
    using name check_prediction_task_name_acc [of "JList tasks" "check_key_values_readout readout e1"]
      accumulated_Inr by fastforce
  then have n: "for_each task_name_body tasks [] = Inr own"
    by (simp add: check_prediction_task_name_def)
  have "\<exists>e. task_name_body t [] = Inr e"
    using n t
  proof (induction tasks arbitrary: own)
    case Nil
    then show ?case by simp
  next
    case (Cons y ys)
    obtain e where e: "task_name_body y [] = Inr e" and rest: "for_each task_name_body ys e = Inr own"
      using Cons.prems(1) by (cases "task_name_body y []") auto
    have "map_sum id ((@) e) (for_each task_name_body ys []) = Inr own"
      using rest for_each_accumulates [of task_name_body ys e, OF task_name_body_acc] by simp
    then obtain own' where "for_each task_name_body ys [] = Inr own'"
      using accumulated_Inr by blast
    with e Cons show ?case by auto
  qed
  then obtain tkvs where "t = JDict tkvs"
    using task_name_body_dict by blast
  with clean task_scale_body_clean show ?thesis
    by blast
qed

section \<open>The point readout\<close>

lemma length_upper [simp]: "length (upper s) = length s"
  by (simp add: upper_def)

lemma upper_Nil_iff [simp]: "upper s = [] \<longleftrightarrow> s = []"
  by (simp add: upper_def)

lemma total_cpg_Cons:
  "total_cpg (c # cs) = (if take 2 (c # cs) = ''CG'' then 1 else 0) + total_cpg cs"
proof (cases cs)
  case Nil
  then show ?thesis by (simp add: total_cpg_def)
next
  case (Cons d ds)
  have "[0..<length cs] = 0 # map Suc [0..<length cs - 1]"
    using Cons by (simp add: upt_conv_Cons map_Suc_upt del: upt_Suc)
  then have "filter (\<lambda>i. take 2 (drop i (c # cs)) = ''CG'') [0..<length cs] =
        (if take 2 (c # cs) = ''CG'' then [0] else [])
        @ map Suc (filter (\<lambda>i. take 2 (drop i cs) = ''CG'') [0..<length cs - 1])"
    by (simp add: filter_map comp_def)
  then show ?thesis
    by (simp add: total_cpg_def)
qed

lemma total_cpg_occ: "total_cpg s = occ s"
proof (induction s)
  case Nil
  show ?case by (simp add: total_cpg_def)
next
  case (Cons c cs)
  then show ?case by (simp only: total_cpg_Cons occ.simps)
qed

lemma cpg_mean_nonempty:
  assumes "s \<noteq> []"
  shows "cpg_mean s sc =
           (if sc = ''linear'' then Inr (smoothed_ratio s)
            else if sc = ''log'' then Inr (log 2 (smoothed_ratio s))
            else Inl (PyExc UnboundLocalError))"
  using assms
  by (simp add: cpg_mean_def py_truediv_def total_cpg_occ smoothed_ratio_def epsilon_def Let_def)

text \<open>
  C5. For a sequence \<open>s\<close> that is not empty, the point readout is one scalar: the number
  of positions at which "CG" starts in the upper-cased sequence, plus \<open>1e-9\<close>, divided by
  the length of \<open>s\<close>; under the scale "log" it is the logarithm to base 2 of this ratio,
  under "linear" (which an absent scale resolves to) the ratio itself. The scale is one of
  the two values the validation admits.
\<close>

theorem point_readout_value:
  assumes "s \<noteq> []"
  shows "cpg_mean s ''linear'' = Inr (smoothed_ratio s)
       \<and> cpg_mean s ''log'' = Inr (log 2 (smoothed_ratio s))
       \<and> predict_cpg [(seq_id, s)] ''point'' None = Inr ([(seq_id, [smoothed_ratio s])], ''linear'')
       \<and> predict_cpg [(seq_id, s)] ''point'' (Some ''linear'') = Inr ([(seq_id, [smoothed_ratio s])], ''linear'')
       \<and> predict_cpg [(seq_id, s)] ''point'' (Some ''log'') = Inr ([(seq_id, [log 2 (smoothed_ratio s)])], ''log'')"
  using assms by (simp add: cpg_mean_nonempty predict_cpg_def)

lemma log2_less_ratio:
  assumes "0 < x" "0 < m" "x ^ m * 2 ^ n < 1"
  shows "log 2 x < - (real n / real m)"
proof -
  have "x ^ m < 1 / 2 ^ n"
    using assms(3) by (simp add: field_simps)
  then have "log 2 (x ^ m) < log 2 (1 / 2 ^ n)"
    using assms(1) by (simp add: log_less_cancel_iff del: log_divide)
  then have "real m * log 2 x < - real n"
    using assms(1) by (simp add: log_nat_power log_divide)
  then show ?thesis
    using assms(2) by (simp add: field_simps)
qed

lemma log2_greater_ratio:
  assumes "0 < x" "0 < m" "1 < x ^ m * 2 ^ n"
  shows "- (real n / real m) < log 2 x"
proof -
  have "1 / 2 ^ n < x ^ m"
    using assms(3) by (simp add: field_simps)
  then have "log 2 (1 / 2 ^ n) < log 2 (x ^ m)"
    using assms(1) by (simp add: log_less_cancel_iff del: log_divide)
  then have "- real n < real m * log 2 x"
    using assms(1) by (simp add: log_nat_power log_divide)
  then show ?thesis
    using assms(2) by (simp add: field_simps)
qed

lemma ratio_ACGCGT: "smoothed_ratio ''ACGCGT'' = (2 + 1 / 10 ^ 9) / 6"
proof -
  have "occ (upper ''ACGCGT'') = 2" by code_simp
  then show ?thesis by (simp add: smoothed_ratio_def)
qed

lemma log2_less_fraction:
  assumes "0 < p" "0 < q" "0 < m" "p ^ m * 2 ^ n < (q::nat) ^ m"
  shows "log 2 (real p / real q) < - (real n / real m)"
proof (rule log2_less_ratio)
  show "0 < real p / real q" using assms by simp
  show "0 < m" by fact
  have "real (p ^ m * 2 ^ n) < real (q ^ m)"
    using assms(4) by (simp only: of_nat_less_iff)
  then show "(real p / real q) ^ m * 2 ^ n < 1"
    using assms(2) by (simp add: power_divide field_simps)
qed

lemma log2_greater_fraction:
  assumes "0 < p" "0 < q" "0 < m" "(q::nat) ^ m < p ^ m * 2 ^ n"
  shows "- (real n / real m) < log 2 (real p / real q)"
proof (rule log2_greater_ratio)
  show "0 < real p / real q" using assms by simp
  show "0 < m" by fact
  have "real (q ^ m) < real (p ^ m * 2 ^ n)"
    using assms(4) by (simp only: of_nat_less_iff)
  then show "1 < (real p / real q) ^ m * 2 ^ n"
    using assms(2) by (simp add: power_divide field_simps)
qed

lemma log_ratio_upper: "log 2 ((2 + 1 / 10 ^ 9) / 6) < - (198 / 125 :: real)"
proof -
  have "((2 + 1 / 10 ^ 9) / 6 :: real) < 3334 / 10000" by simp
  then have a: "log 2 ((2 + 1 / 10 ^ 9) / 6) < log 2 (3334 / 10000)"
    by (subst log_less_cancel_iff) simp_all
  have b: "log 2 (3334 / 10000) < - (198 / 125 :: real)"
    using log2_less_fraction [of 3334 10000 125 198] by simp
  from a b show ?thesis by (rule less_trans)
qed

lemma log_ratio_lower: "- (793 / 500 :: real) < log 2 ((2 + 1 / 10 ^ 9) / 6)"
proof -
  have "(1 / 3 :: real) < (2 + 1 / 10 ^ 9) / 6" by simp
  then have a: "log 2 (1 / 3) < log 2 ((2 + 1 / 10 ^ 9) / 6)"
    by (subst log_less_cancel_iff) simp_all
  have b: "- (793 / 500 :: real) < log 2 (1 / 3)"
    using log2_greater_fraction [of 1 3 500 793] by simp
  from b a show ?thesis by (rule less_trans)
qed

text \<open>
  "ACGCGT" has two occurrences: the ratio is \<open>(2 + 1e-9) / 6\<close>, within \<open>0.0001\<close> of
  \<open>0.3333\<close>, and its logarithm to base 2 is within \<open>0.001\<close> of \<open>-1.585\<close>.
\<close>

theorem point_readout_value_witness:
  "cpg_mean ''ACGCGT'' ''linear'' = Inr ((2 + 1 / 10 ^ 9) / 6)
   \<and> \<bar>(2 + 1 / 10 ^ 9) / 6 - 3333 / 10000\<bar> < (1 / 10000 :: real)
   \<and> cpg_mean ''ACGCGT'' ''log'' = Inr (log 2 ((2 + 1 / 10 ^ 9) / 6))
   \<and> \<bar>log 2 ((2 + 1 / 10 ^ 9) / 6) - (- 1585 / 1000)\<bar> < (1 / 1000 :: real)"
proof -
  have ne: "''ACGCGT'' \<noteq> []" by simp
  have "\<bar>log 2 ((2 + 1 / 10 ^ 9) / 6) - (- 1585 / 1000)\<bar> < (1 / 1000 :: real)"
    using log_ratio_upper log_ratio_lower by linarith
  then show ?thesis
    using point_readout_value [OF ne, of "''s''"] by (simp add: ratio_ACGCGT)
qed

section \<open>The format of a response\<close>

text \<open>
  C7. An error response goes through the JSON branch whatever the \<^verbatim>\<open>Accept\<close> header
  says. Any other response goes through the MessagePack branch exactly when the
  lower-cased \<^verbatim>\<open>Accept\<close> header contains \<^verbatim>\<open>application/msgpack\<close> and the supported
  response formats (only JSON when none are given) include it, and through the JSON
  branch otherwise. A branch answers a response of its own media type with the given
  status when its serializer succeeds (and a \<^verbatim>\<open>ServerError\<close> when it does not).
\<close>

theorem error_responses_are_json:
  "(isError \<longrightarrow>
      encode_response packb jsonify req payload code isError supported predictor_name =
        json_response jsonify (with_predictor_name payload predictor_name) code)
   \<and> (\<not> isError \<longrightarrow>
      encode_response packb jsonify req payload code isError supported predictor_name =
        (if contains ''application/msgpack'' (lower (case hdr_accept req of None \<Rightarrow> [] | Some a \<Rightarrow> a))
            \<and> ''application/msgpack'' \<in> set (case supported of None \<Rightarrow> [''application/json''] | Some fs \<Rightarrow> fs)
         then msgpack_response packb (with_predictor_name payload predictor_name) code
         else json_response jsonify (with_predictor_name payload predictor_name) code))
   \<and> (\<forall>r. json_response jsonify p code = Inr r \<longrightarrow> mimetype r = ''application/json'' \<and> status r = code)
   \<and> (\<forall>r. msgpack_response packb p code = Inr r \<longrightarrow> mimetype r = ''application/msgpack'' \<and> status r = code)
   \<and> (\<forall>b. jsonify p = Inr b \<longrightarrow>
         json_response jsonify p code = Inr \<lparr>resp_body = b, status = code, mimetype = ''application/json''\<rparr>)
   \<and> (\<forall>b. packb p = Inr b \<longrightarrow>
         msgpack_response packb p code = Inr \<lparr>resp_body = b, status = code, mimetype = ''application/msgpack''\<rparr>)"
  by (auto simp: encode_response_def response_format_def json_response_def msgpack_response_def Let_def
        split: sum.splits)

text \<open>
  An error with \<^verbatim>\<open>Accept: application/msgpack\<close> is JSON; a prediction with
  \<^verbatim>\<open>Accept: Application/MsgPack\<close> is MessagePack when the server supports it, and JSON
  when the supported formats are left at their default.
\<close>

theorem error_responses_are_json_witness:
  "encode_response (\<lambda>p. Inr ''packed'') (\<lambda>p. Inr ''{}'')
     \<lparr>hdr_content_type = None, hdr_accept = Some ''application/msgpack'', data = []\<rparr>
     [(''error'', JList [])] 400 True (Some [''application/json'', ''application/msgpack'']) ''CpG Predictor''
   = Inr \<lparr>resp_body = ''{}'', status = 400, mimetype = ''application/json''\<rparr>
   \<and> encode_response (\<lambda>p. Inr ''packed'') (\<lambda>p. Inr ''{}'')
     \<lparr>hdr_content_type = None, hdr_accept = Some ''Application/MsgPack'', data = []\<rparr>
     [(''prediction_tasks'', JList [])] 200 False (Some [''application/json'', ''application/msgpack'']) ''CpG Predictor''
   = Inr \<lparr>resp_body = ''packed'', status = 200, mimetype = ''application/msgpack''\<rparr>
   \<and> encode_response (\<lambda>p. Inr ''packed'') (\<lambda>p. Inr ''{}'')
     \<lparr>hdr_content_type = None, hdr_accept = Some ''application/msgpack'', data = []\<rparr>
     [(''prediction_tasks'', JList [])] 200 False None ''CpG Predictor''
   = Inr \<lparr>resp_body = ''{}'', status = 200, mimetype = ''application/json''\<rparr>"
proof -
  have c: "contains ''application/msgpack'' (lower ''Application/MsgPack'')"
          "contains ''application/msgpack'' (lower ''application/msgpack'')"
    by code_simp+
  show ?thesis
    using error_responses_are_json
      [of True "\<lambda>p. Inr ''packed''" "\<lambda>p. Inr ''{}''"
          "\<lparr>hdr_content_type = None, hdr_accept = Some ''application/msgpack'', data = []\<rparr>"
          "[(''error'', JList [])]" 400 "Some [''application/json'', ''application/msgpack'']" "''CpG Predictor''"]
      error_responses_are_json
      [of False "\<lambda>p. Inr ''packed''" "\<lambda>p. Inr ''{}''"
          "\<lparr>hdr_content_type = None, hdr_accept = Some ''Application/MsgPack'', data = []\<rparr>"
          "[(''prediction_tasks'', JList [])]" 200 "Some [''application/json'', ''application/msgpack'']" "''CpG Predictor''"]
      error_responses_are_json
      [of False "\<lambda>p. Inr ''packed''" "\<lambda>p. Inr ''{}''"
          "\<lparr>hdr_content_type = None, hdr_accept = Some ''application/msgpack'', data = []\<rparr>"
          "[(''prediction_tasks'', JList [])]" 200 None "''CpG Predictor''"]
      c
    by (simp add: json_response_def msgpack_response_def with_predictor_name_def)
qed

section \<open>The format of a request\<close>

text \<open>
  C8. A missing (or empty) \<^verbatim>\<open>Content-Type\<close> header resolves to \<^verbatim>\<open>application/json\<close>, any
  other header to its lower case. A resolved type outside the supported request formats
  is a \<^verbatim>\<open>BadRequestError\<close>; so is every exception of the decoder of the resolved format,
  \<^verbatim>\<open>request.get_json\<close> or \<^verbatim>\<open>msgpack.unpackb\<close>. Whatever the decoders do, an error of
  \<^verbatim>\<open>decode_request\<close> has status 400, never 500.
\<close>

theorem decode_failures_are_bad_requests:
  "(hdr_content_type req = None \<or> hdr_content_type req = Some [] \<longrightarrow>
      resolved_content_type req = ''application/json'')
   \<and> (\<forall>h. hdr_content_type req = Some h \<and> h \<noteq> [] \<longrightarrow> resolved_content_type req = lower h)
   \<and> (resolved_content_type req \<notin> set supported_request_formats \<longrightarrow>
        decode_request get_json unpackb supported_request_formats req =
          Inl (unsupported_content_type (resolved_content_type req) supported_request_formats))
   \<and> (\<forall>e. resolved_content_type req = ''application/json''
          \<and> ''application/json'' \<in> set supported_request_formats \<and> get_json req = Inl e \<longrightarrow>
        decode_request get_json unpackb supported_request_formats req =
          Inl (BadRequestError (MsgStr (''Could not parse JSON payload: '' @ e))))
   \<and> (\<forall>e. resolved_content_type req = ''application/msgpack''
          \<and> ''application/msgpack'' \<in> set supported_request_formats \<and> unpackb (data req) = Inl e \<longrightarrow>
        decode_request get_json unpackb supported_request_formats req =
          Inl (BadRequestError (MsgStr (''Could not decode MsgPack payload: '' @ e))))
   \<and> (\<forall>err. decode_request get_json unpackb supported_request_formats req = Inl err \<longrightarrow>
        status_code err = 400 \<and> error_key err = ''bad_prediction_request'')"
  by (auto simp: decode_request_def resolved_content_type_def unsupported_content_type_def Let_def
        split: sum.splits option.splits if_splits)

text \<open>
  \<^verbatim>\<open>Content-Type: Application/MsgPack\<close> with a body that \<^verbatim>\<open>unpackb\<close> rejects is a 400; no
  header decodes as JSON; \<^verbatim>\<open>text/plain\<close> is a 400.
\<close>

theorem decode_failures_are_bad_requests_witness:
  "decode_request (\<lambda>r. Inr JNull) (\<lambda>b. Inl ''unpack(b) received extra data.'')
     [''application/json'', ''application/msgpack'']
     \<lparr>hdr_content_type = Some ''Application/MsgPack'', hdr_accept = None, data = ''{}''\<rparr>
   = Inl (BadRequestError (MsgStr ''Could not decode MsgPack payload: unpack(b) received extra data.''))
   \<and> decode_request (\<lambda>r. Inr (JDict [])) (\<lambda>b. Inl ''unpack(b) received extra data.'')
     [''application/json'', ''application/msgpack'']
     \<lparr>hdr_content_type = None, hdr_accept = None, data = ''{}''\<rparr>
   = Inr (JDict [])
   \<and> status_code (unsupported_content_type ''text/plain'' [''application/json'', ''application/msgpack'']) = 400
   \<and> decode_request (\<lambda>r. Inr (JDict [])) (\<lambda>b. Inl ''unpack(b) received extra data.'')
     [''application/json'', ''application/msgpack'']
     \<lparr>hdr_content_type = Some ''text/plain'', hdr_accept = None, data = ''{}''\<rparr>
   = Inl (unsupported_content_type ''text/plain'' [''application/json'', ''application/msgpack''])"
proof -
  have l: "lower ''Application/MsgPack'' = ''application/msgpack''" "lower ''text/plain'' = ''text/plain''"
    by code_simp+
  have a: "decode_request (\<lambda>r. Inr (JDict [])) (\<lambda>b. Inl ''unpack(b) received extra data.'')
     [''application/json'', ''application/msgpack'']
     \<lparr>hdr_content_type = None, hdr_accept = None, data = ''{}''\<rparr>
   = Inr (JDict [])"
    by (simp add: decode_request_def resolved_content_type_def)
  show ?thesis
    using decode_failures_are_bad_requests
      [of "\<lparr>hdr_content_type = Some ''Application/MsgPack'', hdr_accept = None, data = ''{}''\<rparr>"
          "[''application/json'', ''application/msgpack'']" "\<lambda>r. Inr JNull"
          "\<lambda>b. Inl ''unpack(b) received extra data.''"]
      decode_failures_are_bad_requests
      [of "\<lparr>hdr_content_type = Some ''text/plain'', hdr_accept = None, data = ''{}''\<rparr>"
          "[''application/json'', ''application/msgpack'']" "\<lambda>r. Inr (JDict [])"
          "\<lambda>b. Inl ''unpack(b) received extra data.''"]
      a l
    by (simp add: unsupported_content_type_def)
qed

section \<open>The track readout\<close>

lemma count_from_CG: "count_from ''CG'' 0 w = occ w"
proof (induction w)
  case Nil
  show ?case by simp
next
  case (Cons c cs)
  show ?case
  proof (cases "take 2 (c # cs) = ''CG''")
    case False
    then show ?thesis using Cons by auto
  next
    case True
    then obtain r where cs: "cs = CHR ''G'' # r" and c: "c = CHR ''C''"
      by (cases cs) auto
    have "count_from ''CG'' 0 r = occ r"
      using Cons cs by simp
    then show ?thesis
      using cs c by simp
  qed
qed

lemma str_count_CG: "str_count w ''CG'' = occ w"
  by (simp add: str_count_def count_from_CG)

lemma map_e_Inr:
  "(\<And>x. x \<in> set xs \<Longrightarrow> f x = Inr (g x)) \<Longrightarrow> map_e f xs = Inr (map g xs)"
  by (induction xs) simp_all

lemma map_e_Inl:
  "xs \<noteq> [] \<Longrightarrow> (\<And>x. x \<in> set xs \<Longrightarrow> f x = Inl e) \<Longrightarrow> map_e f xs = Inl e"
  by (cases xs) simp_all

lemma map_nth_upt_drop_take:
  "hi \<le> length t \<Longrightarrow> map (nth t) [lo..<hi] = drop lo (take hi t)"
  by (rule nth_equalityI) (auto simp: min_def)

lemma window_slice:
  assumes "i < length t"
  shows "py_slice t (max 0 (int i - 25)) (min (int (length t)) (int i + 25)) =
         map (nth t) [i - 25..<min (length t) (i + 25)]"
proof -
  have lo: "slice_index (length t) (max 0 (int i - 25)) = i - 25"
    using assms unfolding slice_index_def by arith
  have hi: "slice_index (length t) (min (int (length t)) (int i + 25)) = min (length t) (i + 25)"
    by (simp add: slice_index_def min_def) arith
  have "take (min (length t) (i + 25) - (i - 25)) (drop (i - 25) t) =
        drop (i - 25) (take (min (length t) (i + 25)) t)"
    using assms by (simp add: drop_take min_def)
  also have "\<dots> = map (nth t) [i - 25..<min (length t) (i + 25)]"
    by (rule map_nth_upt_drop_take [symmetric]) simp
  finally show ?thesis
    by (simp only: py_slice_def Let_def lo hi)
qed

lemma window_density_value:
  assumes "i < length t"
  shows "window_density t 25 i = Inr (density_over t (i - 25) (min (length t) (i + 25)))"
proof -
  have len: "min (int (length t)) (int i + 25) - max 0 (int i - 25) =
             int (min (length t) (i + 25) - (i - 25))"
    using assms by arith
  have pos: "0 < min (length t) (i + 25) - (i - 25)"
    using assms by arith
  have ne: "min (length t) (i + 25) \<noteq> i - 25" "i - 25 < min (length t) (i + 25)"
    using assms by arith+
  show ?thesis
    unfolding window_density_def Let_def window_slice [OF assms] len
    using pos ne by (simp add: py_truediv_def density_over_def str_count_CG) arith
qed

lemma window_densities:
  "map_e (window_density t 25) [0..<length t] =
     Inr (map (\<lambda>i. density_over t (i - 25) (min (length t) (i + 25))) [0..<length t])"
  by (rule map_e_Inr) (simp add: window_density_value)

lemma calculate_cpg_per_base_50:
  "calculate_cpg_per_base s sc 50 =
     (if sc = ''linear''
      then Inr (map (\<lambda>i. density_over (cleaned s) (i - 25) (min (length (cleaned s)) (i + 25)))
                  [0..<length (cleaned s)])
      else if sc = ''log''
      then Inr (map (\<lambda>i. log 2 (density_over (cleaned s) (i - 25) (min (length (cleaned s)) (i + 25)) + 1 / 10 ^ 9))
                  [0..<length (cleaned s)])
      else Inl (PyExc UnboundLocalError))"
  by (simp add: calculate_cpg_per_base_def Let_def window_densities epsilon_def comp_def)

lemma cleaned_without_blanks:
  "CHR '' '' \<notin> set (upper s) \<Longrightarrow> CHR 0x0A \<notin> set (upper s) \<Longrightarrow> cleaned s = upper s"
  by (auto simp: cleaned_def filter_id_conv)

lemma valid_sequence_cleaned: "valid_sequence s \<Longrightarrow> cleaned s = upper s"
  by (rule cleaned_without_blanks) (auto simp: valid_sequence_def valid_bases_def)

text \<open>
  C6, as amended. The sequence is taken upper-cased, with spaces and newlines removed
  (for a sequence that meets the model specifications this is the upper-cased sequence,
  of the same length). The output has one value per position \<open>i\<close> of it, in order: the
  number of occurrences of "CG" in the window of the positions \<open>i - 25\<close>, ..., \<open>i + 24\<close>
  that the sequence has (the half-open window from \<open>i - 25\<close> to \<open>i + 25\<close>, clipped),
  divided by the number of these positions, times 100. Under the scale "log" each value
  \<open>d\<close> becomes \<open>log2 (d + 1e-9)\<close>; under "linear", which an absent scale resolves to, the
  values are returned as they are.
\<close>

theorem track_readout_values:
  "calculate_cpg_per_base s ''linear'' 50 =
     Inr (map (\<lambda>i. density_over (cleaned s) (i - 25) (min (length (cleaned s)) (i + 25)))
            [0..<length (cleaned s)])
   \<and> calculate_cpg_per_base s ''log'' 50 =
     Inr (map (\<lambda>i. log 2 (density_over (cleaned s) (i - 25) (min (length (cleaned s)) (i + 25)) + 1 / 10 ^ 9))
            [0..<length (cleaned s)])
   \<and> predict_cpg [(seq_id, s)] ''track'' None =
     Inr ([(seq_id, map (\<lambda>i. density_over (cleaned s) (i - 25) (min (length (cleaned s)) (i + 25)))
                      [0..<length (cleaned s)])], ''linear'')
   \<and> predict_cpg [(seq_id, s)] ''track'' (Some ''log'') =
     Inr ([(seq_id, map (\<lambda>i. log 2 (density_over (cleaned s) (i - 25) (min (length (cleaned s)) (i + 25)) + 1 / 10 ^ 9))
                      [0..<length (cleaned s)])], ''log'')
   \<and> (valid_sequence s \<longrightarrow> cleaned s = upper s \<and> length (cleaned s) = length s)"
  by (simp add: calculate_cpg_per_base_50 predict_cpg_def valid_sequence_cleaned upper_def)

text \<open>
  "ACGCGT" is shorter than half a window, so every window is the whole sequence: six
  values \<open>2 / 6 * 100\<close>.
\<close>

theorem track_readout_values_witness:
  "valid_sequence ''ACGCGT''
   \<and> calculate_cpg_per_base ''ACGCGT'' ''linear'' 50 = Inr (replicate 6 (100 / 3))
   \<and> cleaned ''ACGCGT'' = upper ''ACGCGT'' \<and> length (cleaned ''ACGCGT'') = length ''ACGCGT''"
proof -
  have v: "valid_sequence ''ACGCGT''"
    by code_simp
  have c: "cleaned ''ACGCGT'' = ''ACGCGT''"
    by code_simp
  have n: "map (\<lambda>i. (occ (map (nth ''ACGCGT'') [i - 25..<min 6 (i + 25)]), min 6 (i + 25) - (i - 25))) [0..<6]
           = replicate 6 (2, 6)"
    by code_simp
  have "map (\<lambda>i. density_over ''ACGCGT'' (i - 25) (min 6 (i + 25))) [0..<6]
        = map (\<lambda>p. real (fst p) / real (snd p) * 100)
            (map (\<lambda>i. (occ (map (nth ''ACGCGT'') [i - 25..<min 6 (i + 25)]), min 6 (i + 25) - (i - 25))) [0..<6])"
    by (simp add: density_over_def comp_def)
  also have "\<dots> = replicate 6 (100 / 3)"
    unfolding n by simp
  finally have d: "map (\<lambda>i. density_over ''ACGCGT'' (i - 25) (min 6 (i + 25))) [0..<6] = replicate 6 (100 / 3)" .
  have len: "length ''ACGCGT'' = 6"
    by simp
  have t: "calculate_cpg_per_base ''ACGCGT'' ''linear'' 50 =
     Inr (map (\<lambda>i. density_over (cleaned ''ACGCGT'') (i - 25) (min (length (cleaned ''ACGCGT'')) (i + 25)))
            [0..<length (cleaned ''ACGCGT'')])"
    and u: "valid_sequence ''ACGCGT'' \<longrightarrow>
            cleaned ''ACGCGT'' = upper ''ACGCGT'' \<and> length (cleaned ''ACGCGT'') = length ''ACGCGT''"
    using track_readout_values [of "''ACGCGT''" "''s''"] by blast+
  have "calculate_cpg_per_base ''ACGCGT'' ''linear'' 50 = Inr (replicate 6 (100 / 3))"
    using t by (simp only: c len d)
  with v u show ?thesis by blast
qed

text \<open>
  C6 as stated reads the window as the closed interval from \<open>i - 25\<close> to \<open>i + 25\<close>. For the
  sequence of 24 "A" followed by "CG", at position 0, the closed interval is the whole
  sequence, with one occurrence among 26 positions: \<open>100 / 26\<close>. The code slices
  \<^verbatim>\<open>sequence[0:25]\<close>, which ends before the "G", and returns 0 for this position.
\<close>

theorem closed_window_counterexample:
  "calculate_cpg_per_base ''AAAAAAAAAAAAAAAAAAAAAAAACG'' ''linear'' 50 = Inr (0 # replicate 25 (50 / 13))
   \<and> density_over ''AAAAAAAAAAAAAAAAAAAAAAAACG'' (0 - 25) (min (length ''AAAAAAAAAAAAAAAAAAAAAAAACG'') (0 + 26))
       = 50 / 13"
proof -
  let ?S = "''AAAAAAAAAAAAAAAAAAAAAAAACG''"
  have c: "cleaned ?S = ?S"
    by code_simp
  have n: "map (\<lambda>i. (occ (map (nth ?S) [i - 25..<min 26 (i + 25)]), min 26 (i + 25) - (i - 25))) [0..<26]
           = (0, 25) # replicate 25 (1, 26)"
    by code_simp
  have "map (\<lambda>i. density_over ?S (i - 25) (min 26 (i + 25))) [0..<26]
        = map (\<lambda>p. real (fst p) / real (snd p) * 100)
            (map (\<lambda>i. (occ (map (nth ?S) [i - 25..<min 26 (i + 25)]), min 26 (i + 25) - (i - 25))) [0..<26])"
    by (simp add: density_over_def comp_def)
  also have "\<dots> = 0 # replicate 25 (50 / 13)"
    unfolding n by simp
  finally have d: "map (\<lambda>i. density_over ?S (i - 25) (min 26 (i + 25))) [0..<26] = 0 # replicate 25 (50 / 13)" .
  have o: "occ (map (nth ?S) [0..<26]) = 1"
    by code_simp
  have e: "density_over ?S (0 - 25) (min (length ?S) (0 + 26)) = 50 / 13"
    by (simp add: density_over_def o)
  have len: "length ?S = 26"
    by simp
  have "calculate_cpg_per_base ?S ''linear'' 50 = Inr (0 # replicate 25 (50 / 13))"
    by (simp only: calculate_cpg_per_base_50 c len d simp_thms if_True)
  with e show ?thesis by blast
qed

section \<open>No division by zero in the prediction\<close>

lemma predict_cpg_point:
  assumes "list_all (\<lambda>it. snd it \<noteq> []) sequences"
  shows "predict_cpg sequences ''point'' sc \<noteq> Inl (PyExc ZeroDivisionError)
       \<and> (sc \<in> {None, Some ''linear'', Some ''log''} \<longrightarrow>
            (\<exists>predictions. predict_cpg sequences ''point'' sc =
               Inr (predictions, case sc of None \<Rightarrow> ''linear'' | Some x \<Rightarrow> x)
             \<and> map fst predictions = map fst sequences
             \<and> list_all (\<lambda>p. length (snd p) = 1) predictions))"
proof -
  let ?a = "case sc of None \<Rightarrow> ''linear'' | Some x \<Rightarrow> x"
  let ?f = "\<lambda>it. bind_e (cpg_mean (snd it) ?a) (\<lambda>v. Inr (fst it, [v]))"
  show ?thesis
  proof (cases "?a = ''linear'' \<or> ?a = ''log''")
    case True
    let ?g = "\<lambda>it. (fst it, [if ?a = ''linear'' then smoothed_ratio (snd it) else log 2 (smoothed_ratio (snd it))])"
    have "map_e ?f sequences = Inr (map ?g sequences)"
    proof (rule map_e_Inr)
      fix x assume "x \<in> set sequences"
      then have "snd x \<noteq> []"
        using assms by (simp add: list_all_iff)
      then show "?f x = Inr (?g x)"
        using True by (auto simp: cpg_mean_nonempty)
    qed
    then have "predict_cpg sequences ''point'' sc = Inr (map ?g sequences, ?a)"
      by (simp add: predict_cpg_def Let_def)
    then show ?thesis
      by (simp add: comp_def list_all_iff)
  next
    case False
    then have sc: "sc \<notin> {None, Some ''linear'', Some ''log''}"
      by (auto split: option.splits)
    show ?thesis
    proof (cases "sequences = []")
      case True
      then have "predict_cpg sequences r sc = Inr ([], case sc of None \<Rightarrow> ''linear'' | Some x \<Rightarrow> x)" for r
        by (simp add: predict_cpg_def Let_def)
      then show ?thesis using sc by auto
    next
      case ne: False
      have "map_e ?f sequences = Inl (PyExc UnboundLocalError)"
      proof (rule map_e_Inl [OF ne])
        fix x assume "x \<in> set sequences"
        then have "snd x \<noteq> []"
          using assms by (simp add: list_all_iff)
        then show "?f x = Inl (PyExc UnboundLocalError)"
          using False by (simp add: cpg_mean_nonempty)
      qed
      then have "predict_cpg sequences ''point'' sc = Inl (PyExc UnboundLocalError)"
        by (simp add: predict_cpg_def Let_def)
      then show ?thesis
        using sc by auto
    qed
  qed
qed

lemma predict_cpg_track:
  "predict_cpg sequences ''track'' sc \<noteq> Inl (PyExc ZeroDivisionError)
       \<and> (sc \<in> {None, Some ''linear'', Some ''log''} \<longrightarrow>
            (\<exists>predictions. predict_cpg sequences ''track'' sc =
               Inr (predictions, case sc of None \<Rightarrow> ''linear'' | Some x \<Rightarrow> x)
             \<and> map fst predictions = map fst sequences))"
proof -
  let ?a = "case sc of None \<Rightarrow> ''linear'' | Some x \<Rightarrow> x"
  let ?f = "\<lambda>it. bind_e (calculate_cpg_per_base (snd it) ?a 50) (\<lambda>vs. Inr (fst it, vs))"
  let ?d = "\<lambda>s. map (\<lambda>i. density_over (cleaned s) (i - 25) (min (length (cleaned s)) (i + 25))) [0..<length (cleaned s)]"
  show ?thesis
  proof (cases "?a = ''linear'' \<or> ?a = ''log''")
    case True
    let ?g = "\<lambda>it. (fst it, if ?a = ''linear'' then ?d (snd it)
                              else map (\<lambda>i. log 2 (density_over (cleaned (snd it)) (i - 25) (min (length (cleaned (snd it))) (i + 25)) + 1 / 10 ^ 9)) [0..<length (cleaned (snd it))])"
    have "map_e ?f sequences = Inr (map ?g sequences)"
      by (rule map_e_Inr) (use True in \<open>auto simp: calculate_cpg_per_base_50\<close>)
    then have "predict_cpg sequences ''track'' sc = Inr (map ?g sequences, ?a)"
      by (simp add: predict_cpg_def Let_def)
    then show ?thesis
      by (simp add: comp_def)
  next
    case False
    then have sc: "sc \<notin> {None, Some ''linear'', Some ''log''}"
      by (auto split: option.splits)
    show ?thesis
    proof (cases "sequences = []")
      case True
      then have "predict_cpg sequences r sc = Inr ([], case sc of None \<Rightarrow> ''linear'' | Some x \<Rightarrow> x)" for r
        by (simp add: predict_cpg_def Let_def)
      then show ?thesis using sc by auto
    next
      case ne: False
      have "map_e ?f sequences = Inl (PyExc UnboundLocalError)"
        by (rule map_e_Inl [OF ne]) (use False in \<open>simp add: calculate_cpg_per_base_50\<close>)
      then have "predict_cpg sequences ''track'' sc = Inl (PyExc UnboundLocalError)"
        by (simp add: predict_cpg_def Let_def)
      then show ?thesis
        using sc by auto
    qed
  qed
qed

text \<open>
  C9. Every sequence meets the model specifications and the readout is "point" or
  "track". The requested scale is one of those a validated request carries: absent,
  "linear" or "log" (no other scale passes \<^verbatim>\<open>check_prediction_task_scale\<close>). Then
  \<^verbatim>\<open>predict_cpg\<close> returns: a prediction for every sequence id, in order, and the resolved
  scale. The divisions by \<^verbatim>\<open>len(s)\<close> and by the window length never meet a zero divisor:
  \<^verbatim>\<open>ZeroDivisionError\<close> is not raised, whatever the scale. (Only the non-emptiness of the
  sequences is used, and only by the point readout.)
\<close>

theorem predict_cpg_total:
  assumes "list_all (\<lambda>it. valid_sequence (snd it)) sequences"
    and "readout = ''point'' \<or> readout = ''track''"
  shows "predict_cpg sequences readout scale_requested \<noteq> Inl (PyExc ZeroDivisionError)
       \<and> (scale_requested \<in> {None, Some ''linear'', Some ''log''} \<longrightarrow>
            (\<exists>predictions. predict_cpg sequences readout scale_requested =
               Inr (predictions, case scale_requested of None \<Rightarrow> ''linear'' | Some x \<Rightarrow> x)
             \<and> map fst predictions = map fst sequences))"
proof -
  have ne: "list_all (\<lambda>it. snd it \<noteq> []) sequences"
    using assms(1) by (simp add: list_all_iff valid_sequence_def)
  from assms(2) show ?thesis
  proof
    assume "readout = ''point''"
    then show ?thesis
      using predict_cpg_point [OF ne, of scale_requested] by blast
  next
    assume "readout = ''track''"
    then show ?thesis
      using predict_cpg_track [of sequences scale_requested] by blast
  qed
qed

theorem predict_cpg_total_witness:
  "(\<exists>predictions. predict_cpg [(''s1'', ''ACGCGT''), (''s2'', ''n'')] ''track'' None = Inr (predictions, ''linear'')
      \<and> map fst predictions = [''s1'', ''s2''])
   \<and> predict_cpg [(''s1'', ''ACGCGT''), (''s2'', ''n'')] ''track'' None \<noteq> Inl (PyExc ZeroDivisionError)"
proof -
  have v: "list_all (\<lambda>it. valid_sequence (snd it)) [(''s1'', ''ACGCGT''), (''s2'', ''n'')]"
    by code_simp
  show ?thesis
    using predict_cpg_total [OF v, of "''track''" None] by simp
qed

end
